theory Spec2Isabelle
  imports Main "HOL-Library.Monad_Syntax" "HOL-Library.AList" "HOL-Library.Char_ord"
    "HOL-Library.List_Lexorder" "HOL-Library.Product_Lexorder" "HOL-Library.Option_ord"
begin

section \<open>Values, dictionaries and errors\<close>

text \<open>
  The scripts work on JSON documents returned by the worker-manager API (or loaded with
  \<^verbatim>\<open>json.load\<close>). A Python dict keeps its keys in insertion order and holds each key
  once, so a dict is an association list, read with \<open>map_of\<close> and written with
  \<open>AList.update\<close> (replace in place, else append). Numbers are the integers of the API's
  schema; strings are character lists compared position by position, as Python compares
  \<^verbatim>\<open>str\<close>.
\<close>

datatype json =
    JNull
  | JBool bool
  | JInt int
  | JStr string
  | JList "json list"
  | JDict "(string \<times> json) list"

type_synonym pydict = "(string \<times> json) list"

text \<open>
  Every \<^verbatim>\<open>raise\<close> and failed \<^verbatim>\<open>assert\<close> is a value: \<open>Inl\<close> of the exception's class.
  \<open>ApiError\<close> stands for whatever a call of the remote API raises.
\<close>

datatype error =
    AssertionError
  | ValueError
  | TypeError
  | KeyError
  | NameError
  | ApiError string

section \<open>Datetime normalizer\<close>

subsection \<open>The pattern \<^verbatim>\<open>RE_DATETIME\<close>\<close>

text \<open>
  \<^verbatim>\<open>RE_DATETIME.match(raw_value)\<close> matches at the start of the string and does not look
  at what follows the match. The pattern is a sequence of character classes and literal
  characters; \<open>chars\<close> matches a run of classes and returns the matched text (a group)
  and the rest, \<open>lit\<close> matches one literal character.
\<close>

definition digit :: "char \<Rightarrow> bool" where
  "digit c = (c \<in> set ''0123456789'')"

definition one_of :: "string \<Rightarrow> char \<Rightarrow> bool" where
  "one_of cs c = (c \<in> set cs)"

fun chars :: "(char \<Rightarrow> bool) list \<Rightarrow> string \<Rightarrow> (string \<times> string) option" where
  "chars [] s = Some ([], s)"
| "chars (p # ps) [] = None"
| "chars (p # ps) (c # s) =
     (if p c then map_option (\<lambda>(m, r). (c # m, r)) (chars ps s) else None)"

fun lit :: "char \<Rightarrow> string \<Rightarrow> string option" where
  "lit x [] = None"
| "lit x (c # s) = (if c = x then Some s else None)"

text \<open>
  The end of the pattern, after the optional period:
  \<^verbatim>\<open>(?P<msecond>[0-9]{3})\<close> and \<^verbatim>\<open>Z\<close>. The group has no \<^verbatim>\<open>?\<close>: three digits are
  required.
\<close>

definition RE_DATETIME_msecond :: "string \<Rightarrow> string option" where
  "RE_DATETIME_msecond s = do {
     (msecond, r) \<leftarrow> chars [digit, digit, digit] s;
     _ \<leftarrow> lit CHR ''Z'' r;
     Some msecond
   }"

text \<open>
  \<^verbatim>\<open>\.?\<close> is greedy: the period is consumed when present, and the matcher falls back to
  not consuming it when the rest then fails.
\<close>

definition RE_DATETIME_tail :: "string \<Rightarrow> string option" where
  "RE_DATETIME_tail r =
     (case lit CHR ''.'' r of
        Some r' \<Rightarrow> (case RE_DATETIME_msecond r' of
                      Some m \<Rightarrow> Some m
                    | None \<Rightarrow> RE_DATETIME_msecond r)
      | None \<Rightarrow> RE_DATETIME_msecond r)"

text \<open>The whole pattern, with its seven groups.\<close>

definition RE_DATETIME_match ::
  "string \<Rightarrow> (string \<times> string \<times> string \<times> string \<times> string \<times> string \<times> string) option" where
  "RE_DATETIME_match s = do {
     (year, r) \<leftarrow> chars [digit, digit, digit, digit] s;
     r \<leftarrow> lit CHR ''-'' r;
     (month, r) \<leftarrow> chars [one_of ''01'', digit] r;
     r \<leftarrow> lit CHR ''-'' r;
     (day, r) \<leftarrow> chars [one_of ''0123'', digit] r;
     r \<leftarrow> lit CHR ''T'' r;
     (hour, r) \<leftarrow> chars [one_of ''012345'', digit] r;
     r \<leftarrow> lit CHR '':'' r;
     (minute, r) \<leftarrow> chars [one_of ''012345'', digit] r;
     r \<leftarrow> lit CHR '':'' r;
     (second, r) \<leftarrow> chars [one_of ''012345'', digit] r;
     msecond \<leftarrow> RE_DATETIME_tail r;
     Some (year, month, day, hour, minute, second, msecond)
   }"

subsection \<open>\<^verbatim>\<open>int\<close> on a group and the \<^verbatim>\<open>datetime\<close> constructor\<close>

text \<open>
  A group of the pattern is a string of ASCII digits; \<^verbatim>\<open>int\<close> reads it in base ten.
\<close>

definition digit_value :: "char \<Rightarrow> nat" where
  "digit_value c = of_char c - 48"

definition int_of_digits :: "string \<Rightarrow> nat" where
  "int_of_digits s = foldl (\<lambda>n c. 10 * n + digit_value c) 0 s"

datatype timezone = UTC

record datetime =
  dt_year :: nat
  dt_month :: nat
  dt_day :: nat
  dt_hour :: nat
  dt_minute :: nat
  dt_second :: nat
  dt_microsecond :: nat
  dt_tzinfo :: "timezone option"

text \<open>
  \<^verbatim>\<open>datetime(year, month, day, hour, minute, second, microsecond, tzinfo)\<close> of the standard
  library raises \<^verbatim>\<open>ValueError\<close> for a field outside its range: year 1 to 9999, month 1
  to 12, day 1 to the number of days of that month, hour below 24, minute and second below
  60, microsecond below 1000000.
\<close>

definition is_leap :: "nat \<Rightarrow> bool" where
  "is_leap y = (y mod 4 = 0 \<and> (y mod 100 \<noteq> 0 \<or> y mod 400 = 0))"

definition days_in_month :: "nat \<Rightarrow> nat \<Rightarrow> nat" where
  "days_in_month y m =
     (if m = 2 then (if is_leap y then 29 else 28)
      else if m = 4 \<or> m = 6 \<or> m = 9 \<or> m = 11 then 30 else 31)"

definition py_datetime ::
  "nat \<Rightarrow> nat \<Rightarrow> nat \<Rightarrow> nat \<Rightarrow> nat \<Rightarrow> nat \<Rightarrow> nat \<Rightarrow> timezone option \<Rightarrow> error + datetime" where
  "py_datetime y mo d h mi s us tz =
     (if 1 \<le> y \<and> y \<le> 9999 \<and> 1 \<le> mo \<and> mo \<le> 12 \<and> 1 \<le> d \<and> d \<le> days_in_month y mo
         \<and> h \<le> 23 \<and> mi \<le> 59 \<and> s \<le> 59 \<and> us \<le> 999999
      then Inr \<lparr>dt_year = y, dt_month = mo, dt_day = d, dt_hour = h, dt_minute = mi,
                dt_second = s, dt_microsecond = us, dt_tzinfo = tz\<rparr>
      else Inl ValueError)"

subsection \<open>The conversion of one date field in \<^verbatim>\<open>to_csv\<close>\<close>

text \<open>
  The body of \<^verbatim>\<open>if key in date_keys:\<close>. \<^verbatim>\<open>re.match\<close> on a value that is not a string
  raises \<^verbatim>\<open>TypeError\<close>; no match fails the \<^verbatim>\<open>assert\<close>; the constructor may raise
  \<^verbatim>\<open>ValueError\<close>. \<^verbatim>\<open>int(millisecond or 0)\<close> reads 0 for an empty group.
\<close>

definition to_datetime :: "bool \<Rightarrow> json \<Rightarrow> error + datetime" where
  "to_datetime full_csv_datetimes raw_value =
     (case raw_value of
        JStr s \<Rightarrow>
          (case RE_DATETIME_match s of
             None \<Rightarrow> Inl AssertionError
           | Some (year, month, day, hour, minute, second, millisecond) \<Rightarrow>
               if full_csv_datetimes
               then py_datetime (int_of_digits year) (int_of_digits month) (int_of_digits day)
                      (int_of_digits hour) (int_of_digits minute) (int_of_digits second)
                      (1000 * (if millisecond = [] then 0 else int_of_digits millisecond))
                      (Some UTC)
               else py_datetime (int_of_digits year) (int_of_digits month) (int_of_digits day)
                      (int_of_digits hour) (int_of_digits minute) (int_of_digits second)
                      0 None)
      | _ \<Rightarrow> Inl TypeError)"

section \<open>Pagination collector\<close>

text \<open>
  The listing operations of the worker manager (\<^verbatim>\<open>listWorkersForWorkerPool\<close>,
  \<^verbatim>\<open>listWorkerPools\<close>) are the boundary to the remote API: a function from the optional
  continuation token of the query to a page or an error. A page holds the item list under
  \<^verbatim>\<open>'workers'\<close> or \<^verbatim>\<open>'workerPools'\<close> (\<open>None\<close> when the key is absent) and the
  optional \<^verbatim>\<open>'continuationToken'\<close>.
\<close>

record 'a page =
  page_items :: "'a list option"
  continuationToken :: "string option"

type_synonym 'a listing = "string option \<Rightarrow> error + 'a page"

text \<open>\<^verbatim>\<open>while token:\<close> runs for a token that is present and not the empty string.\<close>

definition truthy :: "string option \<Rightarrow> bool" where
  "truthy token = (case token of None \<Rightarrow> False | Some t \<Rightarrow> t \<noteq> [])"

text \<open>\<^verbatim>\<open>page.get('workers', [])\<close>\<close>

definition items_or_empty :: "'a page \<Rightarrow> 'a list" where
  "items_or_empty page = (case page_items page of None \<Rightarrow> [] | Some xs \<Rightarrow> xs)"

text \<open>
  The \<^verbatim>\<open>while\<close> loop of \<^verbatim>\<open>get_pool_workers\<close>. Nothing bounds the number of pages the
  API may serve, so the loop is a partial function: \<open>None\<close> is a run that never returns.
\<close>

partial_function (option) get_pool_workers_loop ::
  "'a listing \<Rightarrow> string option \<Rightarrow> 'a list \<Rightarrow> (error + 'a list) option" where
  "get_pool_workers_loop listWorkersForWorkerPool token workers =
     (if truthy token
      then (case listWorkersForWorkerPool token of
              Inl e \<Rightarrow> Some (Inl e)
            | Inr page \<Rightarrow>
                get_pool_workers_loop listWorkersForWorkerPool (continuationToken page)
                  (workers @ items_or_empty page))
      else Some (Inr workers))"

text \<open>The first page is read with \<^verbatim>\<open>page['workers']\<close>, which raises \<^verbatim>\<open>KeyError\<close>.\<close>

definition get_pool_workers :: "'a listing \<Rightarrow> (error + 'a list) option" where
  "get_pool_workers listWorkersForWorkerPool =
     (case listWorkersForWorkerPool None of
        Inl e \<Rightarrow> Some (Inl e)
      | Inr page \<Rightarrow>
          (case page_items page of
             None \<Rightarrow> Some (Inl KeyError)
           | Some workers \<Rightarrow>
               get_pool_workers_loop listWorkersForWorkerPool (continuationToken page)
                 workers))"

text \<open>
  \<^verbatim>\<open>get_worker_pools\<close> in \<^verbatim>\<open>worker_pool_types.py\<close> has the same shape, but the call in
  its loop body is \<^verbatim>\<open>worker_manager.listWorkerPools(pool_id, query=...)\<close>, and the name
  \<^verbatim>\<open>pool_id\<close> is bound neither in the function nor in the module. Evaluating the
  argument raises \<^verbatim>\<open>NameError\<close> before the API is called, so the body of the loop ends
  there.
\<close>

definition get_worker_pools_loop :: "string option \<Rightarrow> 'a list \<Rightarrow> error + 'a list" where
  "get_worker_pools_loop token pools = (if truthy token then Inl NameError else Inr pools)"

definition get_worker_pools :: "'a listing \<Rightarrow> error + 'a list" where
  "get_worker_pools listWorkerPools =
     (case listWorkerPools None of
        Inl e \<Rightarrow> Inl e
      | Inr page \<Rightarrow>
          (case page_items page of
             None \<Rightarrow> Inl KeyError
           | Some pools \<Rightarrow> get_worker_pools_loop (continuationToken page) pools))"

text \<open>
  A run of the API as the sequence of pages it serves: \<open>served api token pages\<close> says that,
  queried with \<open>token\<close>, the API answers with the first page, each page's token leads to the
  next page, and the last page is the first one without a token. \<open>failing api token pages e\<close>
  is a run that serves \<open>pages\<close>, each with a token, and then raises \<open>e\<close>.
\<close>

fun served :: "'a listing \<Rightarrow> string option \<Rightarrow> 'a page list \<Rightarrow> bool" where
  "served api token [] = False"
| "served api token [p] = (api token = Inr p \<and> \<not> truthy (continuationToken p))"
| "served api token (p # q # ps) =
     (api token = Inr p \<and> truthy (continuationToken p)
      \<and> served api (continuationToken p) (q # ps))"

fun failing :: "'a listing \<Rightarrow> string option \<Rightarrow> 'a page list \<Rightarrow> error \<Rightarrow> bool" where
  "failing api token [] e = (api token = Inl e)"
| "failing api token (p # ps) e =
     (api token = Inr p \<and> truthy (continuationToken p)
      \<and> failing api (continuationToken p) ps e)"

text \<open>A listing of two pages, the first with the token \<^verbatim>\<open>t1\<close>.\<close>

definition two_pages :: "string listing" where
  "two_pages token =
     (if token = None
      then Inr \<lparr>page_items = Some [''pool-a''], continuationToken = Some ''t1''\<rparr>
      else if token = Some ''t1''
      then Inr \<lparr>page_items = Some [''pool-b''], continuationToken = None\<rparr>
      else Inl (ApiError ''unknown token''))"

section \<open>Python built-ins used by the summaries\<close>

subsection \<open>\<^verbatim>\<open>int\<close>\<close>

text \<open>
  \<^verbatim>\<open>int(x)\<close> on a JSON value: an integer is returned as it is, a boolean is 0 or 1, a string
  is read in base ten (surrounding ASCII whitespace stripped, an optional sign, digits with single
  underscores allowed between them; anything else raises \<^verbatim>\<open>ValueError\<close>), and
  \<^verbatim>\<open>None\<close>, a list or a dict raise \<^verbatim>\<open>TypeError\<close>.
\<close>

definition is_space :: "char \<Rightarrow> bool" where
  "is_space c = (of_char c \<in> {9, 10, 11, 12, 13, 28, 29, 30, 31, 32 :: nat})"

definition strip :: "string \<Rightarrow> string" where
  "strip s = rev (dropWhile is_space (rev (dropWhile is_space s)))"

fun int_body :: "string \<Rightarrow> bool" where
  "int_body [] = False"
| "int_body [c] = digit c"
| "int_body (c # d # r) =
     (digit c \<and> (if d = CHR ''_'' then int_body r else int_body (d # r)))"

definition int_of_str :: "string \<Rightarrow> error + int" where
  "int_of_str s =
     (let t = strip s;
          (negative, body) =
            (case t of
               [] \<Rightarrow> (False, t)
             | c # r \<Rightarrow> if c = CHR ''-'' then (True, r)
                        else if c = CHR ''+'' then (False, r) else (False, t))
      in if int_body body
         then let n = int (int_of_digits (filter (\<lambda>c. c \<noteq> CHR ''_'') body))
              in Inr (if negative then - n else n)
         else Inl ValueError)"

fun py_int :: "json \<Rightarrow> error + int" where
  "py_int (JInt i) = Inr i"
| "py_int (JBool b) = Inr (if b then 1 else 0)"
| "py_int (JStr s) = int_of_str s"
| "py_int JNull = Inl TypeError"
| "py_int (JList xs) = Inl TypeError"
| "py_int (JDict d) = Inl TypeError"

subsection \<open>\<^verbatim>\<open>str\<close> of an integer, \<^verbatim>\<open>max\<close>, \<^verbatim>\<open>list.index\<close>, padding\<close>

definition digit_char :: "nat \<Rightarrow> char" where
  "digit_char n = ''0123456789'' ! n"

fun str_nat :: "nat \<Rightarrow> string" where
  "str_nat n = (if n < 10 then [digit_char n] else str_nat (n div 10) @ [digit_char (n mod 10)])"

declare str_nat.simps [simp del]

definition str_int :: "int \<Rightarrow> string" where
  "str_int i = (if i < 0 then CHR ''-'' # str_nat (nat (- i)) else str_nat (nat i))"

text \<open>\<^verbatim>\<open>max\<close> of a sequence raises \<^verbatim>\<open>ValueError\<close> when the sequence is empty.\<close>

definition py_max :: "nat list \<Rightarrow> error + nat" where
  "py_max xs = (if xs = [] then Inl ValueError else Inr (Max (set xs)))"

text \<open>
  \<^verbatim>\<open>xs.index(x)\<close> is the position of the first occurrence; where \<open>x\<close> does not occur Python
  raises \<^verbatim>\<open>ValueError\<close> (the callers below check that before they use \<open>index_of\<close>).
\<close>

fun index_of :: "'a list \<Rightarrow> 'a \<Rightarrow> nat" where
  "index_of [] x = 0"
| "index_of (y # ys) x = (if y = x then 0 else Suc (index_of ys x))"

text \<open>
  \<^verbatim>\<open>f"{s:<{w}}"\<close> and \<^verbatim>\<open>f"{s:>{w}}"\<close>: pad with spaces to width \<open>w\<close>; a longer text is
  not cut.
\<close>

definition ljust :: "nat \<Rightarrow> string \<Rightarrow> string" where
  "ljust w s = s @ replicate (w - length s) CHR '' ''"

definition rjust :: "nat \<Rightarrow> string \<Rightarrow> string" where
  "rjust w s = replicate (w - length s) CHR '' '' @ s"

text \<open>\<^verbatim>\<open>sep.join(lines)\<close>\<close>

fun join :: "string \<Rightarrow> string list \<Rightarrow> string" where
  "join sep [] = []"
| "join sep [x] = x"
| "join sep (x # y # ys) = x @ sep @ join sep (y # ys)"

subsection \<open>Appending what is new\<close>

text \<open>
  The idiom \<^verbatim>\<open>if x not in seen: seen.append(x)\<close>, run over a sequence: it is how
  \<^verbatim>\<open>state_order\<close>, the key sets and the CSV headers grow.
\<close>

fun append_new :: "'a list \<Rightarrow> 'a list \<Rightarrow> 'a list" where
  "append_new seen [] = seen"
| "append_new seen (x # xs) = append_new (if x \<in> set seen then seen else seen @ [x]) xs"

section \<open>Worker summary\<close>

text \<open>
  A worker as \<^verbatim>\<open>worker_summary\<close> reads it: the four identifying fields are strings in the
  API's schema, each possibly absent (\<^verbatim>\<open>worker.get(..., '')\<close>); \<^verbatim>\<open>capacity\<close> is whatever
  JSON value the record holds, since the code converts it with \<^verbatim>\<open>int\<close>.
\<close>

record worker =
  worker_workerPoolId :: "string option"
  worker_workerGroup :: "string option"
  worker_providerId :: "string option"
  worker_state :: "string option"
  worker_capacity :: "json option"

definition get_str :: "string option \<Rightarrow> string" where
  "get_str field = (case field of None \<Rightarrow> [] | Some s \<Rightarrow> s)"

type_synonym key = "string \<times> string \<times> string \<times> string"

text \<open>
  The variables of the loop. \<^verbatim>\<open>key_set\<close> is a Python set, kept here as a list without
  duplicates (its order is of no consequence: the keys are sorted before use, by a sort key
  that does not repeat). The four \<^verbatim>\<open>defaultdict(int)\<close> are functions with 0 where nothing
  was counted.
\<close>

record tally =
  key_set :: "key list"
  key_worker_counts :: "key \<Rightarrow> int"
  key_capacity_counts :: "key \<Rightarrow> int"
  state_worker_counts :: "string \<Rightarrow> int"
  state_capacity_counts :: "string \<Rightarrow> int"
  state_order :: "string list"
  known_states :: "string set"

definition tally_init :: tally where
  "tally_init =
     \<lparr>key_set = [],
      key_worker_counts = (\<lambda>k. 0),
      key_capacity_counts = (\<lambda>k. 0),
      state_worker_counts = (\<lambda>s. 0),
      state_capacity_counts = (\<lambda>s. 0),
      state_order = [''requested'', ''running'', ''stopping'', ''stopped''],
      known_states = set [''requested'', ''running'', ''stopping'', ''stopped'']\<rparr>"

text \<open>
  The updates of one pass of \<^verbatim>\<open>for worker in workers:\<close>, from \<^verbatim>\<open>key_set.add(key)\<close>
  to \<^verbatim>\<open>known_states.add(state)\<close>. The per-state capacity count is increased by 1, as the
  source has it (\<^verbatim>\<open>state_capacity_counts[state] += 1\<close>), not by the capacity.
\<close>

definition tally_add :: "tally \<Rightarrow> key \<Rightarrow> string \<Rightarrow> int \<Rightarrow> tally" where
  "tally_add t key state capacity =
     t\<lparr>key_set := (if key \<in> set (key_set t) then key_set t else key_set t @ [key]),
       key_worker_counts := (key_worker_counts t)(key := key_worker_counts t key + 1),
       key_capacity_counts :=
         (key_capacity_counts t)(key := key_capacity_counts t key + capacity),
       state_worker_counts :=
         (state_worker_counts t)(state := state_worker_counts t state + 1),
       state_capacity_counts :=
         (state_capacity_counts t)(state := state_capacity_counts t state + 1),
       state_order := (if state \<notin> known_states t then state_order t @ [state]
                       else state_order t),
       known_states := (if state \<notin> known_states t then insert state (known_states t)
                        else known_states t)\<rparr>"

text \<open>The body of the loop: read the fields, convert the capacity, count.\<close>

definition tally_worker :: "tally \<Rightarrow> worker \<Rightarrow> error + tally" where
  "tally_worker t worker =
     (let pool_id = get_str (worker_workerPoolId worker);
          group = get_str (worker_workerGroup worker);
          provider_id = get_str (worker_providerId worker);
          state = get_str (worker_state worker)
      in case py_int (case worker_capacity worker of None \<Rightarrow> JInt 1 | Some c \<Rightarrow> c) of
           Inl e \<Rightarrow> Inl e
         | Inr capacity \<Rightarrow> Inr (tally_add t (pool_id, group, provider_id, state) state capacity))"

fun tally_workers :: "tally \<Rightarrow> worker list \<Rightarrow> error + tally" where
  "tally_workers t [] = Inr t"
| "tally_workers t (worker # workers) =
     (case tally_worker t worker of
        Inl e \<Rightarrow> Inl e
      | Inr t' \<Rightarrow> tally_workers t' workers)"

text \<open>The key and the state under which a worker is counted.\<close>

definition worker_key :: "worker \<Rightarrow> key" where
  "worker_key worker =
     (get_str (worker_workerPoolId worker), get_str (worker_workerGroup worker),
      get_str (worker_providerId worker), get_str (worker_state worker))"

definition state_of :: "worker \<Rightarrow> string" where
  "state_of worker = get_str (worker_state worker)"

text \<open>
  The capacity under which a worker is counted: \<^verbatim>\<open>int(worker.get('capacity', 1))\<close>, where
  that conversion succeeds.
\<close>

definition capacity_of :: "worker \<Rightarrow> int" where
  "capacity_of worker =
     (case py_int (case worker_capacity worker of None \<Rightarrow> JInt 1 | Some c \<Rightarrow> c) of
        Inl e \<Rightarrow> 0
      | Inr c \<Rightarrow> c)"

text \<open>
  A \<^verbatim>\<open>defaultdict(int)\<close> together with the list of the keys it has counted: the keys are
  all different and the count is 0 elsewhere.
\<close>

definition counted :: "('a \<Rightarrow> int) \<Rightarrow> 'a list \<Rightarrow> bool" where
  "counted f xs = (distinct xs \<and> (\<forall>x. x \<notin> set xs \<longrightarrow> f x = 0))"

text \<open>
  \<^verbatim>\<open>sorted(key_set, key=lambda k: (k[0], k[1], k[2], state_order.index(k[3])))\<close>: the
  sort keys are compared lexicographically, strings by their characters and the last
  component as a number. \<^verbatim>\<open>state_order.index\<close> raises \<^verbatim>\<open>ValueError\<close> for a state that is
  not in the list.
\<close>

definition sort_key_of :: "string list \<Rightarrow> key \<Rightarrow> string \<times> string \<times> string \<times> nat" where
  "sort_key_of order k = (case k of (p, g, pr, s) \<Rightarrow> (p, g, pr, index_of order s))"

definition sorted_keys :: "tally \<Rightarrow> error + key list" where
  "sorted_keys t =
     (if \<forall>k \<in> set (key_set t). snd (snd (snd k)) \<in> set (state_order t)
      then Inr (sort_key (sort_key_of (state_order t)) (key_set t))
      else Inl ValueError)"

text \<open>
  The column widths. The two scripts differ in one line: \<^verbatim>\<open>worker_pool_stats.py\<close> has
  \<^verbatim>\<open>state_len = max(len(state) for state in known_states)\<close>, \<^verbatim>\<open>worker-pool-stats.py\<close> has
  \<^verbatim>\<open>state_len = max(len('State'), max(len(key[3]) for key in keys))\<close>.
\<close>

datatype script = Worker_pool_stats | Worker_dash_pool_dash_stats

record widths =
  pool_id_len :: nat
  group_len :: nat
  provider_len :: nat
  state_len :: nat
  workers_len :: nat
  capacity_len :: nat

definition column_widths :: "script \<Rightarrow> tally \<Rightarrow> key list \<Rightarrow> error + widths" where
  "column_widths script t keys =
     (case py_max (map (\<lambda>key. length (fst key)) keys) of
        Inl e \<Rightarrow> Inl e
      | Inr m0 \<Rightarrow>
     (case py_max (map (\<lambda>key. length (fst (snd key))) keys) of
        Inl e \<Rightarrow> Inl e
      | Inr m1 \<Rightarrow>
     (case py_max (map (\<lambda>key. length (fst (snd (snd key)))) keys) of
        Inl e \<Rightarrow> Inl e
      | Inr m2 \<Rightarrow>
     (case (case script of
              Worker_pool_stats \<Rightarrow>
                (if known_states t = {} then Inl ValueError
                 else Inr (Max (length ` known_states t)))
            | Worker_dash_pool_dash_stats \<Rightarrow>
                (case py_max (map (\<lambda>key. length (snd (snd (snd key)))) keys) of
                   Inl e \<Rightarrow> Inl e
                 | Inr m3 \<Rightarrow> Inr (max (length ''State'') m3))) of
        Inl e \<Rightarrow> Inl e
      | Inr sl \<Rightarrow>
          Inr \<lparr>pool_id_len = max (length ''Pool ID'') m0,
               group_len = max (length ''Group ID'') m1,
               provider_len = max (length ''Provider ID'') m2,
               state_len = sl,
               workers_len = length ''Workers'',
               capacity_len = length ''Capacity''\<rparr>))))"

text \<open>The lines of the two tables.\<close>

definition col :: string where
  "col = ''  ''"

definition group_header :: "widths \<Rightarrow> string" where
  "group_header w =
     ljust (pool_id_len w) ''Pool ID'' @ col @ ljust (group_len w) ''Group ID'' @ col
     @ ljust (provider_len w) ''Provider ID'' @ col @ ljust (state_len w) ''State'' @ col
     @ ljust (workers_len w) ''Workers'' @ col @ ljust (capacity_len w) ''Capacity''"

definition group_row :: "widths \<Rightarrow> tally \<Rightarrow> key \<Rightarrow> string" where
  "group_row w t key =
     (case key of (pool_id, group_id, provider_id, state) \<Rightarrow>
        ljust (pool_id_len w) pool_id @ col @ ljust (group_len w) group_id @ col
        @ ljust (provider_len w) provider_id @ col @ ljust (state_len w) state @ col
        @ ljust (workers_len w) (str_int (key_worker_counts t key)) @ col
        @ ljust (capacity_len w) (str_int (key_capacity_counts t key)))"

definition state_header :: "widths \<Rightarrow> string" where
  "state_header w =
     ljust (state_len w) ''State'' @ col @ ljust (workers_len w) ''Workers'' @ col
     @ ljust (capacity_len w) ''Capacity''"

definition state_row :: "widths \<Rightarrow> tally \<Rightarrow> string \<Rightarrow> string" where
  "state_row w t state =
     ljust (state_len w) state @ col
     @ ljust (workers_len w) (str_int (state_worker_counts t state)) @ col
     @ ljust (capacity_len w) (str_int (state_capacity_counts t state))"

text \<open>
  \<^verbatim>\<open>worker_summary\<close>, in its stages: the loop, the sorted keys, the widths, and the text.
  \<open>summary_parts\<close> gives the values the text is made of.
\<close>

definition summary_parts :: "script \<Rightarrow> worker list \<Rightarrow> error + (tally \<times> key list \<times> widths)" where
  "summary_parts script workers =
     (case tally_workers tally_init workers of
        Inl e \<Rightarrow> Inl e
      | Inr t \<Rightarrow>
     (case sorted_keys t of
        Inl e \<Rightarrow> Inl e
      | Inr keys \<Rightarrow>
     (case column_widths script t keys of
        Inl e \<Rightarrow> Inl e
      | Inr w \<Rightarrow> Inr (t, keys, w))))"

definition summary_text :: "tally \<Rightarrow> key list \<Rightarrow> widths \<Rightarrow> string" where
  "summary_text t keys w =
     join ''\<newline>''
       ([group_header w] @ map (group_row w t) keys @ ['''', '''']
        @ [state_header w] @ map (state_row w t) (state_order t))"

definition worker_summary_of :: "script \<Rightarrow> worker list \<Rightarrow> error + string" where
  "worker_summary_of script workers =
     (case summary_parts script workers of
        Inl e \<Rightarrow> Inl e
      | Inr (t, keys, w) \<Rightarrow> Inr (summary_text t keys w))"

definition worker_summary :: "worker list \<Rightarrow> error + string" where
  "worker_summary workers = worker_summary_of Worker_pool_stats workers"

text \<open>\<^verbatim>\<open>worker-pool-stats.py\<close> is the same function with the other \<^verbatim>\<open>state_len\<close>.\<close>

definition worker_summary_dash :: "worker list \<Rightarrow> error + string" where
  "worker_summary_dash workers = worker_summary_of Worker_dash_pool_dash_stats workers"

text \<open>
  The two tables of the worker summary as label, width and stringified value per column:
  what each line of \<open>summary_text\<close> pads and joins.
\<close>

definition widths_list :: "widths \<Rightarrow> nat list" where
  "widths_list w =
     [pool_id_len w, group_len w, provider_len w, state_len w, workers_len w, capacity_len w]"

definition group_labels :: "string list" where
  "group_labels = [''Pool ID'', ''Group ID'', ''Provider ID'', ''State'', ''Workers'', ''Capacity'']"

definition group_cells :: "tally \<Rightarrow> key \<Rightarrow> string list" where
  "group_cells t key =
     (case key of (pool_id, group_id, provider_id, state) \<Rightarrow>
        [pool_id, group_id, provider_id, state,
         str_int (key_worker_counts t key), str_int (key_capacity_counts t key)])"

definition state_labels :: "string list" where
  "state_labels = [''State'', ''Workers'', ''Capacity'']"

definition state_cells :: "tally \<Rightarrow> string \<Rightarrow> string list" where
  "state_cells t state =
     [state, str_int (state_worker_counts t state), str_int (state_capacity_counts t state)]"

text \<open>
  The per-state totals of a list of workers, read off the loop's result.
\<close>

definition state_totals :: "worker list \<Rightarrow> string \<Rightarrow> error + (int \<times> int)" where
  "state_totals workers state =
     (case tally_workers tally_init workers of
        Inl e \<Rightarrow> Inl e
      | Inr t \<Rightarrow> Inr (state_worker_counts t state, state_capacity_counts t state))"

definition group_totals :: "worker list \<Rightarrow> key \<Rightarrow> error + (int \<times> int)" where
  "group_totals workers key =
     (case tally_workers tally_init workers of
        Inl e \<Rightarrow> Inl e
      | Inr t \<Rightarrow> Inr (key_worker_counts t key, key_capacity_counts t key))"

section \<open>Worker-pool summary\<close>

text \<open>
  A worker pool as \<^verbatim>\<open>worker_pool_summary\<close> reads it. Identifiers and owner are strings,
  \<^verbatim>\<open>minCapacity\<close> and \<^verbatim>\<open>maxCapacity\<close> are integers and \<^verbatim>\<open>launchConfigs\<close> is a list in
  the API's schema; any of them may be absent. \<^verbatim>\<open>currentCapacity\<close> is converted with
  \<^verbatim>\<open>int\<close>.
\<close>

record config =
  config_maxCapacity :: "int option"
  config_minCapacity :: "int option"
  config_launchConfigs :: "json list option"

record pool =
  pool_workerPoolId :: "string option"
  pool_providerId :: "string option"
  pool_currentCapacity :: "json option"
  pool_owner :: "string option"
  pool_config :: "config option"

text \<open>
  The key of a pool:
  \<^verbatim>\<open>(pool_id, provider_id, capacity, min_capacity, max_capacity, owner, launch_configs_count)\<close>.
  An absent \<^verbatim>\<open>minCapacity\<close> or \<^verbatim>\<open>maxCapacity\<close> is the default \<^verbatim>\<open>''\<close>, here \<open>None\<close>.
\<close>

type_synonym pool_key = "string \<times> string \<times> int \<times> int option \<times> int option \<times> string \<times> nat"

text \<open>\<^verbatim>\<open>pool.get('config', {})\<close>\<close>

definition empty_config :: config where
  "empty_config =
     \<lparr>config_maxCapacity = None, config_minCapacity = None, config_launchConfigs = None\<rparr>"

definition pool_key_of :: "pool \<Rightarrow> error + pool_key" where
  "pool_key_of pool =
     (let pool_id = get_str (pool_workerPoolId pool);
          provider_id = get_str (pool_providerId pool)
      in case py_int (case pool_currentCapacity pool of None \<Rightarrow> JInt 0 | Some c \<Rightarrow> c) of
           Inl e \<Rightarrow> Inl e
         | Inr capacity \<Rightarrow>
             let owner = get_str (pool_owner pool);
                 config = (case pool_config pool of None \<Rightarrow> empty_config | Some c \<Rightarrow> c);
                 max_capacity = config_maxCapacity config;
                 min_capacity = config_minCapacity config;
                 launch_configs = (case config_launchConfigs config of None \<Rightarrow> [] | Some l \<Rightarrow> l);
                 launch_configs_count = length launch_configs
             in Inr (pool_id, provider_id, capacity, min_capacity, max_capacity, owner,
                     launch_configs_count))"

text \<open>
  The loop over the pools. \<^verbatim>\<open>key_set\<close> is a Python set, kept as a list without duplicates
  until it is sorted.
\<close>

fun collect_keys :: "pool_key list \<Rightarrow> pool list \<Rightarrow> error + pool_key list" where
  "collect_keys key_set' [] = Inr key_set'"
| "collect_keys key_set' (pool # pools) =
     (case pool_key_of pool of
        Inl e \<Rightarrow> Inl e
      | Inr key \<Rightarrow>
          collect_keys (if key \<in> set key_set' then key_set' else key_set' @ [key]) pools)"

text \<open>
  \<^verbatim>\<open>sorted(key_set)\<close> compares two tuples at the first position where they differ. All
  positions hold values of one type, but for the fourth and fifth, where \<^verbatim>\<open>''\<close> (absent)
  and an integer may meet: \<^verbatim>\<open>'' < 5\<close> raises \<^verbatim>\<open>TypeError\<close>. A sort that returns has
  put the keys in an order that its comparisons justify, whichever way the undecided pairs
  are taken; two keys that differ first in such a position admit no such order, so the sort
  raises exactly when the set holds such a pair. Where it does not, the order is the
  lexicographic one.
\<close>

definition comparable :: "pool_key \<Rightarrow> pool_key \<Rightarrow> bool" where
  "comparable k k' =
     (case k of (p, pr, c, mn, mx, rest) \<Rightarrow>
      case k' of (p', pr', c', mn', mx', rest') \<Rightarrow>
        if p \<noteq> p' \<or> pr \<noteq> pr' \<or> c \<noteq> c' then True
        else if mn \<noteq> mn' then mn \<noteq> None \<and> mn' \<noteq> None
        else if mx \<noteq> mx' then mx \<noteq> None \<and> mx' \<noteq> None
        else True)"

definition sorted_pool_keys :: "pool_key list \<Rightarrow> error + pool_key list" where
  "sorted_pool_keys key_set' =
     (if \<forall>k \<in> set key_set'. \<forall>k' \<in> set key_set'. comparable k k'
      then Inr (sort key_set')
      else Inl TypeError)"

text \<open>\<^verbatim>\<open>str(key[index])\<close> for each position of a key.\<close>

definition str_cap :: "int option \<Rightarrow> string" where
  "str_cap c = (case c of None \<Rightarrow> [] | Some i \<Rightarrow> str_int i)"

definition pool_cells :: "pool_key \<Rightarrow> string list" where
  "pool_cells key =
     (case key of
        (pool_id, provider_id, capacity, min_capacity, max_capacity, owner, launch_configs) \<Rightarrow>
          [pool_id, provider_id, str_int capacity, str_cap min_capacity, str_cap max_capacity,
           owner, str_int (int launch_configs)])"

definition titles :: "string list" where
  "titles =
     [''Pool ID'', ''Provider ID'', ''Capacity'', ''Min Cap'', ''Max Cap'', ''Owner'',
      ''Launch Configs'']"

text \<open>
  The dict comprehension \<^verbatim>\<open>width\<close>: for each \<^verbatim>\<open>index, title in enumerate(titles)\<close> the
  value \<^verbatim>\<open>max(len(title), max(len(str(key[index])) for key in keys))\<close>, here as the list
  of widths in the order of the titles.
\<close>

fun pool_widths :: "(nat \<times> string) list \<Rightarrow> pool_key list \<Rightarrow> error + nat list" where
  "pool_widths [] keys = Inr []"
| "pool_widths ((index, title) # rest) keys =
     (case py_max (map (\<lambda>key. length (pool_cells key ! index)) keys) of
        Inl e \<Rightarrow> Inl e
      | Inr m \<Rightarrow>
          (case pool_widths rest keys of
             Inl e \<Rightarrow> Inl e
           | Inr ws \<Rightarrow> Inr (max (length title) m # ws)))"

text \<open>
  A data line: text columns to the left, numeric columns (Capacity, Min Cap, Max Cap, Launch
  Configs) to the right.
\<close>

definition pool_row :: "nat list \<Rightarrow> pool_key \<Rightarrow> string" where
  "pool_row width key =
     (let cells = pool_cells key
      in ljust (width ! 0) (cells ! 0) @ col @ ljust (width ! 1) (cells ! 1) @ col
         @ rjust (width ! 2) (cells ! 2) @ col @ rjust (width ! 3) (cells ! 3) @ col
         @ rjust (width ! 4) (cells ! 4) @ col @ ljust (width ! 5) (cells ! 5) @ col
         @ rjust (width ! 6) (cells ! 6))"

definition pool_summary_parts :: "pool list \<Rightarrow> error + (pool_key list \<times> nat list)" where
  "pool_summary_parts pools =
     (case collect_keys [] pools of
        Inl e \<Rightarrow> Inl e
      | Inr key_set' \<Rightarrow>
     (case sorted_pool_keys key_set' of
        Inl e \<Rightarrow> Inl e
      | Inr keys \<Rightarrow>
     (case pool_widths (enumerate 0 titles) keys of
        Inl e \<Rightarrow> Inl e
      | Inr width \<Rightarrow> Inr (keys, width))))"

definition worker_pool_summary :: "pool list \<Rightarrow> error + string" where
  "worker_pool_summary pools =
     (case pool_summary_parts pools of
        Inl e \<Rightarrow> Inl e
      | Inr (keys, width) \<Rightarrow>
          Inr (join ''\<newline>''
                 ([join col (map (\<lambda>(w, title). ljust w title) (zip width titles))]
                  @ map (pool_row width) keys @ ['''', '''']
                  @ [''Worker Pools: '' @ str_int (int (length pools))])))"

section \<open>Column widths as specified\<close>

text \<open>
  The width the specification gives a column: the larger of the length of the header label
  and the length of the longest stringified value in the column. A table is given by its
  labels and its rows of stringified values.
\<close>

definition spec_column_width :: "string \<Rightarrow> string list \<Rightarrow> nat" where
  "spec_column_width label vals = Max (insert (length label) (length ` set vals))"

definition column :: "nat \<Rightarrow> string list list \<Rightarrow> string list" where
  "column i rows = map (\<lambda>row. row ! i) rows"

definition spec_widths :: "string list \<Rightarrow> string list list \<Rightarrow> nat list" where
  "spec_widths labels rows =
     map (\<lambda>i. spec_column_width (labels ! i) (column i rows)) [0..<length labels]"

text \<open>
  The workers of the specification's example: two running workers of capacity 2 and 3 and
  one pending worker of capacity 1, with no other field. \<open>example_tally\<close> is the state of
  the loop after them, \<open>example_widths\<close> the widths \<^verbatim>\<open>worker_pool_stats.py\<close> computes.
\<close>

definition example_workers :: "worker list" where
  "example_workers =
     [\<lparr>worker_workerPoolId = None, worker_workerGroup = None, worker_providerId = None,
       worker_state = Some ''running'', worker_capacity = Some (JInt 2)\<rparr>,
      \<lparr>worker_workerPoolId = None, worker_workerGroup = None, worker_providerId = None,
       worker_state = Some ''running'', worker_capacity = Some (JInt 3)\<rparr>,
      \<lparr>worker_workerPoolId = None, worker_workerGroup = None, worker_providerId = None,
       worker_state = Some ''pending'', worker_capacity = Some (JInt 1)\<rparr>]"

definition example_tally :: tally where
  "example_tally =
     tally_add (tally_add (tally_add tally_init ('''', '''', '''', ''running'') ''running'' 2)
                 ('''', '''', '''', ''running'') ''running'' 3)
       ('''', '''', '''', ''pending'') ''pending'' 1"

definition example_widths :: widths where
  "example_widths =
     \<lparr>pool_id_len = 7, group_len = 8, provider_len = 11, state_len = 9, workers_len = 7,
      capacity_len = 8\<rparr>"

text \<open>
  Two pools for the worker-pool summary, the first with nothing but its identifiers, and the
  widths \<^verbatim>\<open>worker-pool-stats.py\<close> computes for the example workers.
\<close>

definition example_widths_dash :: widths where
  "example_widths_dash =
     \<lparr>pool_id_len = 7, group_len = 8, provider_len = 11, state_len = 7, workers_len = 7,
      capacity_len = 8\<rparr>"

definition example_pools :: "pool list" where
  "example_pools =
     [\<lparr>pool_workerPoolId = Some ''proj/b'', pool_providerId = Some ''gcp'',
       pool_currentCapacity = None, pool_owner = None, pool_config = None\<rparr>,
      \<lparr>pool_workerPoolId = Some ''proj/a'', pool_providerId = Some ''aws'',
       pool_currentCapacity = Some (JInt 12), pool_owner = Some ''me@example.com'',
       pool_config = Some \<lparr>config_maxCapacity = Some 100, config_minCapacity = Some 0,
                            config_launchConfigs = Some [JDict [], JDict []]\<rparr>\<rparr>]"

definition example_pool_keys :: "pool_key list" where
  "example_pool_keys =
     [(''proj/a'', ''aws'', 12, Some 0, Some 100, ''me@example.com'', 2),
      (''proj/b'', ''gcp'', 0, None, None, '''', 0)]"

section \<open>Config flattener\<close>

text \<open>
  \<^verbatim>\<open>assert full_key not in ret\<close> followed by \<^verbatim>\<open>ret[full_key] = val\<close>: the key is new, so
  the entry is appended. (Assertions are taken as checked, as they are unless Python runs
  with \<^verbatim>\<open>-O\<close>.)
\<close>

definition store :: "pydict \<Rightarrow> string \<Rightarrow> json \<Rightarrow> error + pydict" where
  "store ret full_key val =
     (if full_key \<in> fst ` set ret then Inl AssertionError else Inr (ret @ [(full_key, val)]))"

text \<open>
  The loop \<^verbatim>\<open>for nkey, nval in nested.items():\<close>, which stores each entry of a flattened
  sub-dictionary under \<^verbatim>\<open>f"{pre}{nkey}"\<close>.
\<close>

fun insert_all :: "pydict \<Rightarrow> string \<Rightarrow> pydict \<Rightarrow> error + pydict" where
  "insert_all ret pre [] = Inr ret"
| "insert_all ret pre ((nkey, nval) # nested) =
     (case store ret (pre @ nkey) nval of
        Inl e \<Rightarrow> Inl e
      | Inr ret' \<Rightarrow> insert_all ret' pre nested)"

text \<open>
  \<^verbatim>\<open>flatten_config(config_dict, prefix, suffix)\<close>. \<open>flatten_items\<close> is the loop over
  \<^verbatim>\<open>config_dict.items()\<close> with the dictionary \<^verbatim>\<open>ret\<close> built so far, \<open>flatten_list\<close> the
  loop over \<^verbatim>\<open>enumerate(val)\<close> for a list value when \<^verbatim>\<open>suffix\<close> is set. A nested mapping
  is flattened with the key alone as its prefix (\<^verbatim>\<open>flatten_config(val, key, suffix)\<close>), and
  \<^verbatim>\<open>pre\<close> is put in front of its keys afterwards. An empty prefix gives an empty \<^verbatim>\<open>pre\<close>.
\<close>

function flatten_config :: "pydict \<Rightarrow> string \<Rightarrow> bool \<Rightarrow> error + pydict"
  and flatten_items :: "pydict \<Rightarrow> string \<Rightarrow> bool \<Rightarrow> pydict \<Rightarrow> error + pydict"
  and flatten_list :: "json list \<Rightarrow> nat \<Rightarrow> string \<Rightarrow> string \<Rightarrow> bool \<Rightarrow> pydict \<Rightarrow> error + pydict"
where
  "flatten_config config_dict prefix suffix =
     flatten_items config_dict (if prefix = [] then [] else prefix @ ''_'') suffix []"
| "flatten_items [] pre suffix ret = Inr ret"
| "flatten_items ((key, val) # rest) pre suffix ret =
     (case (case val of
              JDict d \<Rightarrow>
                (case flatten_config d key suffix of
                   Inl e \<Rightarrow> Inl e
                 | Inr nested \<Rightarrow> insert_all ret pre nested)
            | JList items \<Rightarrow>
                if suffix then flatten_list items 0 key pre suffix ret
                else store ret (pre @ key) val
            | _ \<Rightarrow> store ret (pre @ key) val) of
        Inl e \<Rightarrow> Inl e
      | Inr ret' \<Rightarrow> flatten_items rest pre suffix ret')"
| "flatten_list [] pos key pre suffix ret = Inr ret"
| "flatten_list (item # items) pos key pre suffix ret =
     (case (case item of
              JDict d \<Rightarrow>
                (case flatten_config d (key @ ''_'' @ str_nat pos) suffix of
                   Inl e \<Rightarrow> Inl e
                 | Inr nested \<Rightarrow> insert_all ret pre nested)
            | _ \<Rightarrow> store ret (pre @ key @ ''_'' @ str_nat pos) item) of
        Inl e \<Rightarrow> Inl e
      | Inr ret' \<Rightarrow> flatten_list items (Suc pos) key pre suffix ret')"
  by pat_completeness auto
termination
  by (relation "measure (\<lambda>x. case x of
          Inl (d, _, _) \<Rightarrow> size_list (size_prod (\<lambda>_. 0) size) d + 1
        | Inr (Inl (its, _, _, _)) \<Rightarrow> size_list (size_prod (\<lambda>_. 0) size) its
        | Inr (Inr (js, _, _, _, _, _)) \<Rightarrow> size_list size js)") auto

text \<open>
  The compound keys and values a call derives, path by path through the input, with no check
  and nothing overwritten: one entry for every scalar (or unexpanded list) that is reached.
  This is what the specification calls the derived keys of one flattening call.
\<close>

definition add_prefix :: "string \<Rightarrow> string \<times> json \<Rightarrow> string \<times> json" where
  "add_prefix pre item = (pre @ fst item, snd item)"

function derived :: "pydict \<Rightarrow> string \<Rightarrow> bool \<Rightarrow> pydict"
  and derived_items :: "pydict \<Rightarrow> string \<Rightarrow> bool \<Rightarrow> pydict"
  and derived_list :: "json list \<Rightarrow> nat \<Rightarrow> string \<Rightarrow> string \<Rightarrow> bool \<Rightarrow> pydict"
where
  "derived config_dict prefix suffix =
     derived_items config_dict (if prefix = [] then [] else prefix @ ''_'') suffix"
| "derived_items [] pre suffix = []"
| "derived_items ((key, val) # rest) pre suffix =
     (case val of
        JDict d \<Rightarrow> map (add_prefix pre) (derived d key suffix)
      | JList items \<Rightarrow>
          if suffix then derived_list items 0 key pre suffix else [(pre @ key, val)]
      | _ \<Rightarrow> [(pre @ key, val)])
     @ derived_items rest pre suffix"
| "derived_list [] pos key pre suffix = []"
| "derived_list (item # items) pos key pre suffix =
     (case item of
        JDict d \<Rightarrow> map (add_prefix pre) (derived d (key @ ''_'' @ str_nat pos) suffix)
      | _ \<Rightarrow> [(pre @ key @ ''_'' @ str_nat pos, item)])
     @ derived_list items (Suc pos) key pre suffix"
  by pat_completeness auto
termination
  by (relation "measure (\<lambda>x. case x of
          Inl (d, _, _) \<Rightarrow> size_list (size_prod (\<lambda>_. 0) size) d + 1
        | Inr (Inl (its, _, _)) \<Rightarrow> size_list (size_prod (\<lambda>_. 0) size) its
        | Inr (Inr (js, _, _, _, _)) \<Rightarrow> size_list size js)") auto

text \<open>
  Adding derived entries to a dictionary under the rule of the specification: all keys
  different, or the error.
\<close>

definition checked :: "pydict \<Rightarrow> pydict \<Rightarrow> error + pydict" where
  "checked ret new =
     (if distinct (map fst (ret @ new)) then Inr (ret @ new) else Inl AssertionError)"

text \<open>
  A launch configuration with a nested mapping and a list, and a dictionary in which two paths
  (\<^verbatim>\<open>a\<close> then \<^verbatim>\<open>b\<close>, and \<^verbatim>\<open>a_b\<close>) give the same compound key.
\<close>

definition nested_config :: pydict where
  "nested_config =
     [(''region'', JStr ''us-west1''),
      (''disks'', JList [JDict [(''initializeParams'', JDict [(''sourceImage'', JStr ''img'')])],
                         JStr ''scratch'']),
      (''launchConfig'', JDict [(''ImageId'', JStr ''ami-1'')])]"

definition colliding_config :: pydict where
  "colliding_config = [(''a'', JDict [(''b'', JInt 1)]), (''a_b'', JInt 2)]"

section \<open>Record-to-row projector\<close>

text \<open>
  \<^verbatim>\<open>to_csv\<close> of \<^verbatim>\<open>worker_pool_stats.py\<close>. A cell of the CSV file holds a JSON value as it
  came, or the \<^verbatim>\<open>datetime\<close> a date field was converted to; the \<^verbatim>\<open>csv\<close> module turns
  both into text, which is outside this model.
\<close>

datatype csv_value = Raw json | Date datetime

definition date_keys :: "string set" where
  "date_keys = {''created'', ''expires'', ''lastModified'', ''lastChecked''}"

text \<open>
  The header: for every worker, for every key of the worker, a key not yet seen is appended.
  (\<^verbatim>\<open>header_set\<close> holds the elements of \<^verbatim>\<open>headers\<close> at every moment.) The keys of a
  dictionary are the first components of its association list.
\<close>

definition gather_headers :: "pydict list \<Rightarrow> string list" where
  "gather_headers workers =
     foldl (\<lambda>headers worker. append_new headers (map fst worker)) [] workers"

text \<open>
  The loop over \<^verbatim>\<open>raw_worker.items()\<close> that builds \<^verbatim>\<open>row\<close>: a value under a date key is
  converted, any other is kept; an error of the conversion ends the run.
\<close>

fun convert_row :: "bool \<Rightarrow> pydict \<Rightarrow> error + (string \<times> csv_value) list" where
  "convert_row full_csv_datetimes [] = Inr []"
| "convert_row full_csv_datetimes ((key, raw_value) # items) =
     (case (if key \<in> date_keys
            then (case to_datetime full_csv_datetimes raw_value of
                    Inl e \<Rightarrow> Inl e
                  | Inr dt \<Rightarrow> Inr (Date dt))
            else Inr (Raw raw_value)) of
        Inl e \<Rightarrow> Inl e
      | Inr v \<Rightarrow>
          (case convert_row full_csv_datetimes items of
             Inl e \<Rightarrow> Inl e
           | Inr row \<Rightarrow> Inr ((key, v) # row)))"

text \<open>
  \<^verbatim>\<open>DictWriter.writerow\<close> with the defaults of the \<^verbatim>\<open>csv\<close> module: a key of the row
  that is not a field name raises \<^verbatim>\<open>ValueError\<close>, and a field name missing in the row is
  written as the empty string (\<^verbatim>\<open>restval\<close>).
\<close>

definition writerow :: "string list \<Rightarrow> (string \<times> csv_value) list \<Rightarrow> error + csv_value list" where
  "writerow fieldnames row =
     (if \<exists>k \<in> fst ` set row. k \<notin> set fieldnames then Inl ValueError
      else Inr (map (\<lambda>h. case map_of row h of None \<Rightarrow> Raw (JStr []) | Some v \<Rightarrow> v) fieldnames))"

text \<open>
  What has been written to the file: the header line and the rows. An error leaves the rows
  written before it in the file; the result pairs the file with the error, if any.
\<close>

record csv_file =
  csv_header :: "string list"
  csv_rows :: "csv_value list list"

fun write_rows :: "bool \<Rightarrow> string list \<Rightarrow> pydict list \<Rightarrow> csv_value list list \<times> error option" where
  "write_rows full_csv_datetimes headers [] = ([], None)"
| "write_rows full_csv_datetimes headers (raw_worker # workers) =
     (case convert_row full_csv_datetimes raw_worker of
        Inl e \<Rightarrow> ([], Some e)
      | Inr row \<Rightarrow>
          (case writerow headers row of
             Inl e \<Rightarrow> ([], Some e)
           | Inr cells \<Rightarrow>
               (case write_rows full_csv_datetimes headers workers of
                  (rows, err) \<Rightarrow> (cells # rows, err))))"

definition to_csv :: "pydict list \<Rightarrow> bool \<Rightarrow> csv_file \<times> error option" where
  "to_csv workers full_csv_datetimes =
     (let headers = gather_headers workers
      in case write_rows full_csv_datetimes headers workers of
           (rows, err) \<Rightarrow> (\<lparr>csv_header = headers, csv_rows = rows\<rparr>, err))"

text \<open>
  The cell of a record under a header, as the specification has it: the empty string for a
  missing key, the normalized datetime under a date key, the value itself otherwise. It is
  \<open>None\<close> where the datetime normalizer fails.
\<close>

definition cell :: "bool \<Rightarrow> pydict \<Rightarrow> string \<Rightarrow> csv_value option" where
  "cell full_csv_datetimes worker h =
     (case map_of worker h of
        None \<Rightarrow> Some (Raw (JStr []))
      | Some v \<Rightarrow>
          if h \<in> date_keys
          then (case to_datetime full_csv_datetimes v of Inl e \<Rightarrow> None | Inr dt \<Rightarrow> Some (Date dt))
          else Some (Raw v))"

text \<open>Two records with different keys, one with a date field.\<close>

definition example_records :: "pydict list" where
  "example_records =
     [[(''workerId'', JStr ''w1''), (''created'', JStr ''2021-03-05T14:22:09.500Z'')],
      [(''state'', JStr ''running''), (''workerId'', JStr ''w2'')]]"

section \<open>Column-subset aggregator\<close>

text \<open>\<^verbatim>\<open>CSV_SET["amis"]["columns"]\<close>, the one view the script defines.\<close>

definition CSV_SET_amis_columns :: "string list" where
  "CSV_SET_amis_columns =
     [''workerPoolId'', ''providerId'', ''created'', ''lastModified'', ''owner'',
      ''lc_launchConfig_ImageId'', ''lc_region'', ''lc_disks_0_initializeParams_sourceImage'']"

text \<open>
  The part of \<^verbatim>\<open>to_csv\<close> in \<^verbatim>\<open>worker_pool_types.py\<close> under \<^verbatim>\<open>if csv_set:\<close>. A
  flattened row is read through the columns of the view only, and what the API's schema has
  there is strings (identifiers, timestamps, image and region names), as is the default
  \<^verbatim>\<open>''\<close> for a missing column; so a row is a dictionary of strings here. Tuples of strings
  hash and compare without error: this stage raises nothing.
\<close>

type_synonym flat_row = "(string \<times> string) list"

text \<open>\<^verbatim>\<open>tuple(flat_config.get(key, '') for key in columns)\<close>\<close>

definition out_key_of :: "string list \<Rightarrow> flat_row \<Rightarrow> string list" where
  "out_key_of columns flat_config =
     map (\<lambda>key. case map_of flat_config key of None \<Rightarrow> [] | Some v \<Rightarrow> v) columns"

text \<open>
  \<^verbatim>\<open>counts[out_key] += 1\<close> on a \<^verbatim>\<open>defaultdict(int)\<close>, and the loop over the rows.
\<close>

definition count_key :: "(string list \<times> int) list \<Rightarrow> string list \<Rightarrow> (string list \<times> int) list" where
  "count_key counts out_key =
     AList.update out_key ((case map_of counts out_key of None \<Rightarrow> 0 | Some n \<Rightarrow> n) + 1) counts"

definition count_keys :: "string list \<Rightarrow> flat_row list \<Rightarrow> (string list \<times> int) list" where
  "count_keys columns flat_configs =
     foldl (\<lambda>counts flat_config. count_key counts (out_key_of columns flat_config)) []
       flat_configs"

text \<open>\<^verbatim>\<open>dict(pairs)\<close>: a later pair with the same key replaces the value.\<close>

definition py_dict :: "(string \<times> json) list \<Rightarrow> pydict" where
  "py_dict pairs = foldl (\<lambda>d (k, v). AList.update k v d) [] pairs"

text \<open>
  The loop \<^verbatim>\<open>for row in sorted(counts.keys()):\<close>, which builds the output rows
  \<^verbatim>\<open>dict(zip(columns, row))\<close> with \<^verbatim>\<open>out["launch_config_count"] = counts[row]\<close>. Tuples
  of strings compare lexicographically, as lists of strings do.
\<close>

definition csv_set_rows :: "string list \<Rightarrow> flat_row list \<Rightarrow> pydict list" where
  "csv_set_rows columns flat_configs =
     (let counts = count_keys columns flat_configs
      in map (\<lambda>row. AList.update ''launch_config_count''
                       (JInt (case map_of counts row of None \<Rightarrow> 0 | Some n \<Rightarrow> n))
                       (py_dict (zip columns (map JStr row))))
           (sort (map fst counts)))"

text \<open>
  The output row of a group as the specification describes it: the values of the projection
  columns, then the count.
\<close>

definition spec_row :: "string list \<Rightarrow> string list \<Rightarrow> nat \<Rightarrow> pydict" where
  "spec_row columns g n =
     zip columns (map JStr g) @ [(''launch_config_count'', JInt (int n))]"

text \<open>
  Two flattened rows that agree in the columns of the view \<^verbatim>\<open>amis\<close> and differ in the
  instance type.
\<close>

definition example_flat_configs :: "flat_row list" where
  "example_flat_configs =
     [[(''workerPoolId'', ''proj/a''), (''providerId'', ''aws''), (''lc_region'', ''us-west-2''),
       (''lc_launchConfig_ImageId'', ''ami-1''), (''lc_launchConfig_InstanceType'', ''m5.large'')],
      [(''workerPoolId'', ''proj/a''), (''providerId'', ''aws''), (''lc_region'', ''us-west-2''),
       (''lc_launchConfig_ImageId'', ''ami-1''), (''lc_launchConfig_InstanceType'', ''c5.large'')]]"

(*THEOREMS*)

section \<open>Properties of the datetime normalizer\<close>

lemma digit_value_le: "digit c \<Longrightarrow> digit_value c \<le> 9"
  by (auto simp: digit_def digit_value_def)

lemma chars3_digits:
  assumes "chars [digit, digit, digit] s = Some (m, r)"
  shows "length m = 3 \<and> int_of_digits m \<le> 999"
proof -
  from assms obtain a b c where m: "m = [a, b, c]" and d: "digit a" "digit b" "digit c"
    by (cases s; cases "tl s"; cases "tl (tl s)") (auto split: if_splits)
  from d have "digit_value a \<le> 9" "digit_value b \<le> 9" "digit_value c \<le> 9"
    by (simp_all add: digit_value_le)
  then show ?thesis by (simp add: m int_of_digits_def)
qed

lemma msecond_group:
  assumes "RE_DATETIME_msecond r = Some m"
  shows "length m = 3 \<and> int_of_digits m \<le> 999"
  using assms chars3_digits
  by (auto simp: RE_DATETIME_msecond_def split: Option.bind_splits)

lemma match_msecond:
  assumes "RE_DATETIME_match s = Some (year, month, day, hour, minute, second, msecond)"
  shows "length msecond = 3 \<and> int_of_digits msecond \<le> 999"
proof -
  from assms obtain r where "RE_DATETIME_msecond r = Some msecond"
    unfolding RE_DATETIME_match_def RE_DATETIME_tail_def
    by (auto split: Option.bind_splits option.splits)
  then show ?thesis by (rule msecond_group)
qed

lemma RE_DATETIME_match_example:
  "RE_DATETIME_match ''2021-03-05T14:22:09.500Z'' =
     Some (''2021'', ''03'', ''05'', ''14'', ''22'', ''09'', ''500'')"
  by (simp add: RE_DATETIME_match_def RE_DATETIME_tail_def RE_DATETIME_msecond_def digit_def one_of_def)

lemmas datetime_eval =
  to_datetime_def int_of_digits_def digit_value_def py_datetime_def days_in_month_def
  is_leap_def

subsection \<open>What the pattern accepts\<close>

text \<open>
  C2. The normalizer is meant to accept exactly the strings
  \<^verbatim>\<open>YYYY-MM-DDTHH:MM:SS[.mmm]Z\<close>, the millisecond fraction being optional, so that
  \<^verbatim>\<open>2021-03-05T14:22:09Z\<close> is accepted. The code does not do that: the group
  \<^verbatim>\<open>(?P<msecond>[0-9]{3})\<close> is mandatory (only the period before it is optional), so a
  timestamp without milliseconds fails the match and the \<^verbatim>\<open>assert\<close>, in both modes.
\<close>

theorem to_datetime_no_milliseconds_rejected:
  "to_datetime False (JStr ''2021-03-05T14:22:09Z'') = Inl AssertionError
   \<and> to_datetime True (JStr ''2021-03-05T14:22:09Z'') = Inl AssertionError"
  by (simp add: to_datetime_def RE_DATETIME_match_def RE_DATETIME_tail_def RE_DATETIME_msecond_def digit_def
      one_of_def)

text \<open>
  Further departures from the pattern of the claim: \<^verbatim>\<open>match\<close> does not anchor the end, so
  text after the \<^verbatim>\<open>Z\<close> is ignored; the period may be left out before the three digits;
  and a field that passes its character class but is out of range (month 13, hour 24) is
  rejected by the \<^verbatim>\<open>datetime\<close> constructor with \<^verbatim>\<open>ValueError\<close>, not by the pattern.
\<close>

lemma to_datetime_trailing_text_accepted:
  "to_datetime False (JStr ''2021-03-05T14:22:09.500Zjunk'') =
     Inr \<lparr>dt_year = 2021, dt_month = 3, dt_day = 5, dt_hour = 14, dt_minute = 22,
          dt_second = 9, dt_microsecond = 0, dt_tzinfo = None\<rparr>"
  by (simp add: datetime_eval RE_DATETIME_match_def RE_DATETIME_tail_def RE_DATETIME_msecond_def digit_def
      one_of_def)

lemma to_datetime_no_period_accepted:
  "to_datetime True (JStr ''2021-03-05T14:22:09500Z'') =
     Inr \<lparr>dt_year = 2021, dt_month = 3, dt_day = 5, dt_hour = 14, dt_minute = 22,
          dt_second = 9, dt_microsecond = 500000, dt_tzinfo = Some UTC\<rparr>"
  by (simp add: datetime_eval RE_DATETIME_match_def RE_DATETIME_tail_def RE_DATETIME_msecond_def digit_def
      one_of_def)

lemma to_datetime_out_of_range:
  "to_datetime False (JStr ''2021-13-05T14:22:09.500Z'') = Inl ValueError
   \<and> to_datetime False (JStr ''2021-03-05T24:22:09.500Z'') = Inl ValueError
   \<and> to_datetime False (JStr ''2021-03-05T23:22:09.500Z'') =
       Inr \<lparr>dt_year = 2021, dt_month = 3, dt_day = 5, dt_hour = 23, dt_minute = 22,
            dt_second = 9, dt_microsecond = 0, dt_tzinfo = None\<rparr>
   \<and> to_datetime False (JStr ''2021-13-99Txx:00:00Z'') = Inl AssertionError"
  by (simp add: datetime_eval RE_DATETIME_match_def RE_DATETIME_tail_def RE_DATETIME_msecond_def digit_def
      one_of_def)

text \<open>
  In general: a match needs at least 23 characters (19 up to the seconds, three digits and
  the \<^verbatim>\<open>Z\<close>), so every timestamp without milliseconds, which has 20, is rejected; and
  whatever is accepted stays accepted, with the same result, when any text is appended.
\<close>

lemma chars_split: "chars ps s = Some (m, r) \<Longrightarrow> s = m @ r \<and> length m = length ps"
proof (induction ps s arbitrary: m r rule: chars.induct)
  case (1 s)
  then show ?case by simp
next
  case (2 p ps)
  then show ?case by simp
next
  case (3 p ps c s)
  then show ?case by (auto split: if_splits)
qed

lemma lit_split: "lit x s = Some r \<Longrightarrow> s = x # r"
  by (cases s) (auto split: if_splits)

lemma chars_append: "chars ps s = Some (m, r) \<Longrightarrow> chars ps (s @ t) = Some (m, r @ t)"
proof (induction ps s arbitrary: m r rule: chars.induct)
  case (1 s)
  then show ?case by simp
next
  case (2 p ps)
  then show ?case by simp
next
  case (3 p ps c s)
  then show ?case by (auto split: if_splits)
qed

lemma lit_append: "lit x s = Some r \<Longrightarrow> lit x (s @ t) = Some (r @ t)"
  by (cases s) (auto split: if_splits)

lemma msecond_parts:
  assumes "RE_DATETIME_msecond s = Some m"
  obtains r r' where "chars [digit, digit, digit] s = Some (m, r)" and "lit CHR ''Z'' r = Some r'"
  using assms by (auto simp: RE_DATETIME_msecond_def split: Option.bind_splits)

lemma msecond_length:
  assumes "RE_DATETIME_msecond s = Some m"
  shows "4 \<le> length s"
proof -
  from assms obtain r r' where c: "chars [digit, digit, digit] s = Some (m, r)"
    and l: "lit CHR ''Z'' r = Some r'" by (rule msecond_parts)
  from chars_split [OF c] lit_split [OF l] show ?thesis by simp
qed

lemma msecond_append:
  assumes "RE_DATETIME_msecond s = Some m"
  shows "RE_DATETIME_msecond (s @ t) = Some m"
proof -
  from assms obtain r r' where c: "chars [digit, digit, digit] s = Some (m, r)"
    and l: "lit CHR ''Z'' r = Some r'" by (rule msecond_parts)
  from chars_append [OF c, of t] lit_append [OF l, of t] show ?thesis
    by (simp add: RE_DATETIME_msecond_def)
qed

lemma tail_length:
  assumes "RE_DATETIME_tail r = Some m"
  shows "4 \<le> length r"
proof (cases "lit CHR ''.'' r")
  case None
  with assms show ?thesis by (simp add: RE_DATETIME_tail_def msecond_length)
next
  case (Some r')
  show ?thesis
  proof (cases "RE_DATETIME_msecond r'")
    case None
    with Some assms show ?thesis by (simp add: RE_DATETIME_tail_def msecond_length)
  next
    case (Some m')
    from msecond_length [OF this] lit_split [OF \<open>lit CHR ''.'' r = Some r'\<close>]
    show ?thesis by simp
  qed
qed

lemma tail_append:
  assumes "RE_DATETIME_tail r = Some m"
  shows "RE_DATETIME_tail (r @ t) = Some m"
proof (cases "lit CHR ''.'' r")
  case None
  with assms have m: "RE_DATETIME_msecond r = Some m" by (simp add: RE_DATETIME_tail_def)
  then obtain q q' where c: "chars [digit, digit, digit] r = Some (m, q)" by (rule msecond_parts)
  from None c have "lit CHR ''.'' (r @ t) = None"
    by (cases r) (auto simp: digit_def split: if_splits)
  with msecond_append [OF m] show ?thesis by (simp add: RE_DATETIME_tail_def)
next
  case (Some r')
  note l = lit_append [OF Some, of t]
  show ?thesis
  proof (cases "RE_DATETIME_msecond r'")
    case None
    with Some assms have m: "RE_DATETIME_msecond r = Some m" by (simp add: RE_DATETIME_tail_def)
    then obtain q q' where c: "chars [digit, digit, digit] r = Some (m, q)" by (rule msecond_parts)
    from Some c have False by (cases r) (auto simp: digit_def split: if_splits)
    then show ?thesis ..
  next
    case (Some m')
    with \<open>lit CHR ''.'' r = Some r'\<close> assms have "m' = m" by (simp add: RE_DATETIME_tail_def)
    with msecond_append [OF Some, of t] l show ?thesis by (simp add: RE_DATETIME_tail_def)
  qed
qed

lemma match_parts:
  assumes "RE_DATETIME_match s = Some (y, mo, d, h, mi, se, ms)"
  obtains r1 r2 r3 r4 r5 r6 r7 r8 r9 r10 r11 where
    "chars [digit, digit, digit, digit] s = Some (y, r1)"
    "lit CHR ''-'' r1 = Some r2"
    "chars [one_of ''01'', digit] r2 = Some (mo, r3)"
    "lit CHR ''-'' r3 = Some r4"
    "chars [one_of ''0123'', digit] r4 = Some (d, r5)"
    "lit CHR ''T'' r5 = Some r6"
    "chars [one_of ''012345'', digit] r6 = Some (h, r7)"
    "lit CHR '':'' r7 = Some r8"
    "chars [one_of ''012345'', digit] r8 = Some (mi, r9)"
    "lit CHR '':'' r9 = Some r10"
    "chars [one_of ''012345'', digit] r10 = Some (se, r11)"
    "RE_DATETIME_tail r11 = Some ms"
  using assms unfolding RE_DATETIME_match_def
  by (auto split: Option.bind_splits)

lemma match_min_length:
  assumes "RE_DATETIME_match s = Some g"
  shows "23 \<le> length s"
proof -
  obtain y mo d h mi se ms where g: "g = (y, mo, d, h, mi, se, ms)" by (cases g) auto
  from assms [unfolded g] obtain r1 r2 r3 r4 r5 r6 r7 r8 r9 r10 r11 where p:
    "chars [digit, digit, digit, digit] s = Some (y, r1)"
    "lit CHR ''-'' r1 = Some r2"
    "chars [one_of ''01'', digit] r2 = Some (mo, r3)"
    "lit CHR ''-'' r3 = Some r4"
    "chars [one_of ''0123'', digit] r4 = Some (d, r5)"
    "lit CHR ''T'' r5 = Some r6"
    "chars [one_of ''012345'', digit] r6 = Some (h, r7)"
    "lit CHR '':'' r7 = Some r8"
    "chars [one_of ''012345'', digit] r8 = Some (mi, r9)"
    "lit CHR '':'' r9 = Some r10"
    "chars [one_of ''012345'', digit] r10 = Some (se, r11)"
    "RE_DATETIME_tail r11 = Some ms"
    by (rule match_parts)
  from chars_split [OF p(1)] lit_split [OF p(2)] chars_split [OF p(3)] lit_split [OF p(4)]
    chars_split [OF p(5)] lit_split [OF p(6)] chars_split [OF p(7)] lit_split [OF p(8)]
    chars_split [OF p(9)] lit_split [OF p(10)] chars_split [OF p(11)] tail_length [OF p(12)]
  show ?thesis by simp
qed

lemma match_append:
  assumes "RE_DATETIME_match s = Some g"
  shows "RE_DATETIME_match (s @ t) = Some g"
proof -
  obtain y mo d h mi se ms where g: "g = (y, mo, d, h, mi, se, ms)" by (cases g) auto
  from assms [unfolded g] obtain r1 r2 r3 r4 r5 r6 r7 r8 r9 r10 r11 where p:
    "chars [digit, digit, digit, digit] s = Some (y, r1)"
    "lit CHR ''-'' r1 = Some r2"
    "chars [one_of ''01'', digit] r2 = Some (mo, r3)"
    "lit CHR ''-'' r3 = Some r4"
    "chars [one_of ''0123'', digit] r4 = Some (d, r5)"
    "lit CHR ''T'' r5 = Some r6"
    "chars [one_of ''012345'', digit] r6 = Some (h, r7)"
    "lit CHR '':'' r7 = Some r8"
    "chars [one_of ''012345'', digit] r8 = Some (mi, r9)"
    "lit CHR '':'' r9 = Some r10"
    "chars [one_of ''012345'', digit] r10 = Some (se, r11)"
    "RE_DATETIME_tail r11 = Some ms"
    by (rule match_parts)
  note q = chars_append [OF p(1), of t] lit_append [OF p(2), of t] chars_append [OF p(3), of t]
    lit_append [OF p(4), of t] chars_append [OF p(5), of t] lit_append [OF p(6), of t]
    chars_append [OF p(7), of t] lit_append [OF p(8), of t] chars_append [OF p(9), of t]
    lit_append [OF p(10), of t] chars_append [OF p(11), of t] tail_append [OF p(12), of t]
  show ?thesis unfolding RE_DATETIME_match_def g by (simp only: q bind.bind_lunit prod.case)
qed

lemma to_datetime_short:
  "length s < 23 \<Longrightarrow> to_datetime full (JStr s) = Inl AssertionError"
  using match_min_length [of s] by (cases "RE_DATETIME_match s") (auto simp: to_datetime_def)

lemma to_datetime_trailing:
  assumes "to_datetime full (JStr s) = Inr dt"
  shows "to_datetime full (JStr (s @ t)) = Inr dt"
proof -
  from assms obtain g where g: "RE_DATETIME_match s = Some g"
    by (cases "RE_DATETIME_match s") (auto simp: to_datetime_def)
  from match_append [OF g, of t] g assms show ?thesis by (simp add: to_datetime_def)
qed

subsection \<open>Precision modes\<close>

text \<open>
  C8. Every timestamp string the normalizer accepts (in either mode) gives, with
  \<open>full_csv_datetimes = False\<close>, a value without zone and with no sub-second part, and
  with \<open>full_csv_datetimes = True\<close> the same calendar fields with the three millisecond
  digits of the input kept (as microseconds) and the zone UTC. The timestamp
  \<^verbatim>\<open>2021-03-05T14:22:09.500Z\<close> gives 2021-03-05 14:22:09 with microsecond 0 and no zone in
  the first mode, and 500 ms (500000 microseconds) with zone UTC in the second.
\<close>

theorem to_datetime_precision:
  "(to_datetime full (JStr s) = Inr d \<longrightarrow>
     (\<exists>year month day hour minute second msecond.
        RE_DATETIME_match s = Some (year, month, day, hour, minute, second, msecond)
        \<and> length msecond = 3
        \<and> to_datetime False (JStr s) =
            Inr \<lparr>dt_year = int_of_digits year, dt_month = int_of_digits month,
                 dt_day = int_of_digits day, dt_hour = int_of_digits hour,
                 dt_minute = int_of_digits minute, dt_second = int_of_digits second,
                 dt_microsecond = 0, dt_tzinfo = None\<rparr>
        \<and> to_datetime True (JStr s) =
            Inr \<lparr>dt_year = int_of_digits year, dt_month = int_of_digits month,
                 dt_day = int_of_digits day, dt_hour = int_of_digits hour,
                 dt_minute = int_of_digits minute, dt_second = int_of_digits second,
                 dt_microsecond = 1000 * int_of_digits msecond, dt_tzinfo = Some UTC\<rparr>))
   \<and> to_datetime False (JStr ''2021-03-05T14:22:09.500Z'') =
        Inr \<lparr>dt_year = 2021, dt_month = 3, dt_day = 5, dt_hour = 14, dt_minute = 22,
             dt_second = 9, dt_microsecond = 0, dt_tzinfo = None\<rparr>
   \<and> to_datetime True (JStr ''2021-03-05T14:22:09.500Z'') =
        Inr \<lparr>dt_year = 2021, dt_month = 3, dt_day = 5, dt_hour = 14, dt_minute = 22,
             dt_second = 9, dt_microsecond = 500000, dt_tzinfo = Some UTC\<rparr>"
proof (intro conjI impI)
  assume ok: "to_datetime full (JStr s) = Inr d"
  then obtain year month day hour minute second msecond where
    m: "RE_DATETIME_match s = Some (year, month, day, hour, minute, second, msecond)"
    by (cases "RE_DATETIME_match s") (auto simp: to_datetime_def)
  from match_msecond [OF m] have ms: "length msecond = 3" "int_of_digits msecond \<le> 999"
    by simp_all
  from ms have ne: "msecond \<noteq> []" by auto
  from ok m have rng:
    "1 \<le> int_of_digits year \<and> int_of_digits year \<le> 9999 \<and> 1 \<le> int_of_digits month
     \<and> int_of_digits month \<le> 12 \<and> 1 \<le> int_of_digits day
     \<and> int_of_digits day \<le> days_in_month (int_of_digits year) (int_of_digits month)
     \<and> int_of_digits hour \<le> 23 \<and> int_of_digits minute \<le> 59 \<and> int_of_digits second \<le> 59"
    by (auto simp: to_datetime_def py_datetime_def split: if_splits)
  from m ms ne rng
  show "\<exists>year month day hour minute second msecond.
        RE_DATETIME_match s = Some (year, month, day, hour, minute, second, msecond)
        \<and> length msecond = 3
        \<and> to_datetime False (JStr s) =
            Inr \<lparr>dt_year = int_of_digits year, dt_month = int_of_digits month,
                 dt_day = int_of_digits day, dt_hour = int_of_digits hour,
                 dt_minute = int_of_digits minute, dt_second = int_of_digits second,
                 dt_microsecond = 0, dt_tzinfo = None\<rparr>
        \<and> to_datetime True (JStr s) =
            Inr \<lparr>dt_year = int_of_digits year, dt_month = int_of_digits month,
                 dt_day = int_of_digits day, dt_hour = int_of_digits hour,
                 dt_minute = int_of_digits minute, dt_second = int_of_digits second,
                 dt_microsecond = 1000 * int_of_digits msecond, dt_tzinfo = Some UTC\<rparr>"
    by (simp add: to_datetime_def py_datetime_def)
next
  show "to_datetime False (JStr ''2021-03-05T14:22:09.500Z'') =
        Inr \<lparr>dt_year = 2021, dt_month = 3, dt_day = 5, dt_hour = 14, dt_minute = 22,
             dt_second = 9, dt_microsecond = 0, dt_tzinfo = None\<rparr>"
    by (simp add: datetime_eval RE_DATETIME_match_example)
next
  show "to_datetime True (JStr ''2021-03-05T14:22:09.500Z'') =
        Inr \<lparr>dt_year = 2021, dt_month = 3, dt_day = 5, dt_hour = 14, dt_minute = 22,
             dt_second = 9, dt_microsecond = 500000, dt_tzinfo = Some UTC\<rparr>"
    by (simp add: datetime_eval RE_DATETIME_match_example)
qed


theorem to_datetime_precision_witness:
  "to_datetime False (JStr ''2021-03-05T14:22:09.500Z'') =
     Inr \<lparr>dt_year = 2021, dt_month = 3, dt_day = 5, dt_hour = 14, dt_minute = 22,
          dt_second = 9, dt_microsecond = 0, dt_tzinfo = None\<rparr>
   \<and> (\<exists>year month day hour minute second msecond.
        RE_DATETIME_match ''2021-03-05T14:22:09.500Z'' =
          Some (year, month, day, hour, minute, second, msecond)
        \<and> to_datetime True (JStr ''2021-03-05T14:22:09.500Z'') =
            Inr \<lparr>dt_year = int_of_digits year, dt_month = int_of_digits month,
                 dt_day = int_of_digits day, dt_hour = int_of_digits hour,
                 dt_minute = int_of_digits minute, dt_second = int_of_digits second,
                 dt_microsecond = 1000 * int_of_digits msecond, dt_tzinfo = Some UTC\<rparr>)"
proof -
  have h: "to_datetime False (JStr ''2021-03-05T14:22:09.500Z'') =
     Inr \<lparr>dt_year = 2021, dt_month = 3, dt_day = 5, dt_hour = 14, dt_minute = 22,
          dt_second = 9, dt_microsecond = 0, dt_tzinfo = None\<rparr>"
    by (simp add: datetime_eval RE_DATETIME_match_example)
  from to_datetime_precision [of False "''2021-03-05T14:22:09.500Z''"] h
  show ?thesis by blast
qed

section \<open>Properties of the pagination collector\<close>

lemma get_pool_workers_loop_served:
  "truthy token \<Longrightarrow> served api token pages \<Longrightarrow>
   get_pool_workers_loop api token acc = Some (Inr (acc @ concat (map items_or_empty pages)))"
proof (induction api token pages arbitrary: acc rule: served.induct)
  case (1 api token)
  then show ?case by simp
next
  case (2 api token p)
  then show ?case
    by (simp add: get_pool_workers_loop.simps [of api token]
        get_pool_workers_loop.simps [of api "continuationToken p"])
next
  case (3 api token p q ps)
  then show ?case
    by (simp add: get_pool_workers_loop.simps [of api token])
qed

text \<open>
  \<^verbatim>\<open>get_pool_workers\<close> does what the collector is specified to do: for every run of
  pages it returns, and the result is the concatenation of the pages' items in order.
\<close>

lemma get_pool_workers_served:
  assumes "served api None (p # ps)" and "page_items p = Some ws"
  shows "get_pool_workers api = Some (Inr (concat (map items_or_empty (p # ps))))"
proof (cases ps)
  case Nil
  with assms show ?thesis
    by (simp add: get_pool_workers_def items_or_empty_def
        get_pool_workers_loop.simps [of api "continuationToken p"])
next
  case (Cons q qs)
  with assms have "api None = Inr p" "truthy (continuationToken p)"
    "served api (continuationToken p) (q # qs)" by simp_all
  with assms Cons get_pool_workers_loop_served [of "continuationToken p" api "q # qs" ws]
  show ?thesis
    by (simp add: get_pool_workers_def items_or_empty_def)
qed

lemma get_pool_workers_loop_failing:
  "truthy token \<Longrightarrow> failing api token pages e \<Longrightarrow>
   get_pool_workers_loop api token acc = Some (Inl e)"
proof (induction pages arbitrary: token acc)
  case Nil
  then show ?case by (simp add: get_pool_workers_loop.simps [of api token])
next
  case (Cons p ps)
  then show ?case by (simp add: get_pool_workers_loop.simps [of api token])
qed

text \<open>An error of any listing call is the result of \<^verbatim>\<open>get_pool_workers\<close>.\<close>

lemma get_pool_workers_failing:
  assumes "failing api None pages e" and "pages \<noteq> [] \<longrightarrow> page_items (hd pages) \<noteq> None"
  shows "get_pool_workers api = Some (Inl e)"
proof (cases pages)
  case Nil
  with assms show ?thesis by (simp add: get_pool_workers_def)
next
  case (Cons p ps)
  with assms obtain ws where "page_items p = Some ws" by auto
  with assms Cons get_pool_workers_loop_failing [of "continuationToken p" api ps e ws]
  show ?thesis by (simp add: get_pool_workers_def)
qed

text \<open>
  \<^verbatim>\<open>get_worker_pools\<close> never gets past a first page that carries a token.
\<close>

lemma get_worker_pools_token:
  assumes "api None = Inr p" and "page_items p = Some pools" and "truthy (continuationToken p)"
  shows "get_worker_pools api = Inl NameError"
  using assms by (simp add: get_worker_pools_def get_worker_pools_loop_def)

lemma get_pool_workers_two_pages:
  "get_pool_workers two_pages = Some (Inr [''pool-a'', ''pool-b''])"
  by (simp add: two_pages_def truthy_def get_pool_workers_def get_pool_workers_loop.simps
      items_or_empty_def)

text \<open>
  C3. The pagination collector (\<^verbatim>\<open>get_pool_workers\<close> for workers, \<^verbatim>\<open>get_worker_pools\<close>
  for pools) is to return the concatenation of all pages' items, following the tokens until
  a page has none. \<^verbatim>\<open>get_pool_workers\<close> does (lemma \<open>get_pool_workers_served\<close>);
  \<^verbatim>\<open>get_worker_pools\<close> does not: on a listing of two pages, \<^verbatim>\<open>['pool-a']\<close> with token
  \<^verbatim>\<open>t1\<close> and then \<^verbatim>\<open>['pool-b']\<close> without a token, it raises \<^verbatim>\<open>NameError\<close> instead of
  returning \<^verbatim>\<open>['pool-a', 'pool-b']\<close>.
\<close>

theorem get_worker_pools_two_pages:
  "get_worker_pools two_pages = Inl NameError"
  by (simp add: get_worker_pools_def get_worker_pools_loop_def two_pages_def truthy_def)

section \<open>Properties of the worker summary\<close>

subsection \<open>Lists that grow by what is new\<close>

lemma set_append_new: "set (append_new seen xs) = set seen \<union> set xs"
  by (induction xs arbitrary: seen) auto

lemma distinct_append_new: "distinct seen \<Longrightarrow> distinct (append_new seen xs)"
  by (induction xs arbitrary: seen) auto

lemma index_of_less_length: "x \<in> set xs \<Longrightarrow> index_of xs x < length xs"
  by (induction xs) auto

lemma nth_index_of: "x \<in> set xs \<Longrightarrow> xs ! index_of xs x = x"
  by (induction xs) auto

lemma index_of_inj: "x \<in> set xs \<Longrightarrow> index_of xs x = index_of xs y \<Longrightarrow> x = y"
  by (induction xs) (auto split: if_splits)

lemma append_new_first_seen:
  "\<exists>new. append_new seen xs = seen @ new \<and> set new = set xs - set seen \<and> distinct new
     \<and> sorted_wrt (\<lambda>a b. index_of xs a < index_of xs b) new"
proof (induction xs arbitrary: seen)
  case Nil
  then show ?case by simp
next
  case (Cons x xs)
  show ?case
  proof (cases "x \<in> set seen")
    case True
    from Cons [of seen] obtain new where n: "append_new seen xs = seen @ new"
      "set new = set xs - set seen" "distinct new"
      "sorted_wrt (\<lambda>a b. index_of xs a < index_of xs b) new" by blast
    from n(2) True have "x \<notin> set new" by auto
    then have "sorted_wrt (\<lambda>a b. index_of (x # xs) a < index_of (x # xs) b) new"
      using n(4) by (auto intro: sorted_wrt_mono_rel [rotated])
    with n True show ?thesis by auto
  next
    case False
    from Cons [of "seen @ [x]"] obtain new where n: "append_new (seen @ [x]) xs = seen @ [x] @ new"
      "set new = set xs - set (seen @ [x])" "distinct new"
      "sorted_wrt (\<lambda>a b. index_of xs a < index_of xs b) new" by auto
    from n(2) have xn: "x \<notin> set new" by auto
    then have "sorted_wrt (\<lambda>a b. index_of (x # xs) a < index_of (x # xs) b) new"
      using n(4) by (auto intro: sorted_wrt_mono_rel [rotated])
    with xn have "sorted_wrt (\<lambda>a b. index_of (x # xs) a < index_of (x # xs) b) (x # new)"
      by auto
    moreover have "set (x # new) = set (x # xs) - set seen" using n(2) False by auto
    moreover have "distinct (x # new)" using n(3) xn by simp
    moreover have "append_new seen (x # xs) = seen @ (x # new)" using n(1) False by simp
    ultimately show ?thesis by blast
  qed
qed

lemma tally_add_fields:
  "key_set (tally_add t key st c) = append_new (key_set t) [key]"
  "state_order (tally_add t key st c) =
     (if st \<in> known_states t then state_order t else state_order t @ [st])"
  "known_states (tally_add t key st c) = insert st (known_states t)"
  "key_worker_counts (tally_add t key st c) = (key_worker_counts t)(key := key_worker_counts t key + 1)"
  "key_capacity_counts (tally_add t key st c) = (key_capacity_counts t)(key := key_capacity_counts t key + c)"
  "state_worker_counts (tally_add t key st c) = (state_worker_counts t)(st := state_worker_counts t st + 1)"
  "state_capacity_counts (tally_add t key st c) = (state_capacity_counts t)(st := state_capacity_counts t st + 1)"
  by (auto simp add: tally_add_def)

lemma tally_worker_Inr:
  assumes "tally_worker t worker = Inr t'"
  shows "\<exists>c. py_int (case worker_capacity worker of None \<Rightarrow> JInt 1 | Some c \<Rightarrow> c) = Inr c
            \<and> t' = tally_add t (worker_key worker) (state_of worker) c"
  using assms
  by (cases "py_int (case worker_capacity worker of None \<Rightarrow> JInt 1 | Some c \<Rightarrow> c)")
     (simp_all add: tally_worker_def Let_def worker_key_def state_of_def)

lemma tally_worker_fields:
  assumes "tally_worker t worker = Inr t'" and "known_states t = set (state_order t)"
  shows "key_set t' = append_new (key_set t) [worker_key worker]
       \<and> state_order t' = append_new (state_order t) [state_of worker]
       \<and> known_states t' = set (state_order t')"
proof -
  from tally_worker_Inr [OF assms(1)] obtain c where
    "t' = tally_add t (worker_key worker) (state_of worker) c" by blast
  with assms(2) show ?thesis by (auto simp: tally_add_fields)
qed

lemma append_new_append: "append_new seen (xs @ ys) = append_new (append_new seen xs) ys"
  by (induction xs arbitrary: seen) auto

lemma tally_workers_fields:
  assumes "tally_workers t workers = Inr t'" and "known_states t = set (state_order t)"
  shows "key_set t' = append_new (key_set t) (map worker_key workers)
       \<and> state_order t' = append_new (state_order t) (map state_of workers)
       \<and> known_states t' = set (state_order t')"
  using assms
proof (induction workers arbitrary: t)
  case Nil
  then show ?case by simp
next
  case (Cons w ws)
  from Cons.prems(1) obtain t1 where t1: "tally_worker t w = Inr t1" "tally_workers t1 ws = Inr t'"
    by (auto split: sum.splits)
  from tally_worker_fields [OF t1(1) Cons.prems(2)]
  have f: "key_set t1 = append_new (key_set t) [worker_key w]"
    "state_order t1 = append_new (state_order t) [state_of w]"
    "known_states t1 = set (state_order t1)" by simp_all
  from Cons.IH [OF t1(2) f(3)] f show ?case by simp
qed

subsection \<open>Order of the rows\<close>

lemma known_states_init: "known_states tally_init = set (state_order tally_init)"
  by (simp add: tally_init_def)

lemma summary_parts_Inr:
  assumes "summary_parts script workers = Inr (t, keys, w)"
  shows "tally_workers tally_init workers = Inr t"
    and "sorted_keys t = Inr keys"
    and "column_widths script t keys = Inr w"
  using assms by (auto simp: summary_parts_def split: sum.splits)

lemma sort_key_of_inj:
  assumes "snd (snd (snd k)) \<in> set order" and "sort_key_of order k = sort_key_of order k'"
  shows "k = k'"
proof -
  obtain p g pr s where k: "k = (p, g, pr, s)" by (cases k) auto
  obtain p' g' pr' s' where k': "k' = (p', g', pr', s')" by (cases k') auto
  from assms k k' have "s \<in> set order" "index_of order s = index_of order s'"
    "p = p'" "g = g'" "pr = pr'" by (simp_all add: sort_key_of_def)
  with index_of_inj [of s order s'] k k' show ?thesis by simp
qed

lemma sorted_keys_Inr:
  assumes "sorted_keys t = Inr keys"
  shows "keys = sort_key (sort_key_of (state_order t)) (key_set t)"
    and "\<forall>k \<in> set (key_set t). snd (snd (snd k)) \<in> set (state_order t)"
  using assms by (auto simp: sorted_keys_def split: if_splits)

lemma strict_sorted_keys:
  assumes "sorted_keys t = Inr keys" and "distinct (key_set t)"
  shows "sorted_wrt (<) (map (sort_key_of (state_order t)) keys)"
proof -
  let ?f = "sort_key_of (state_order t)"
  from sorted_keys_Inr [OF assms(1)] have keys: "keys = sort_key ?f (key_set t)"
    and mem: "\<forall>k \<in> set (key_set t). snd (snd (snd k)) \<in> set (state_order t)" by simp_all
  have "inj_on ?f (set (key_set t))"
    using mem by (auto intro!: inj_onI dest: sort_key_of_inj)
  with assms(2) keys have "distinct (map ?f keys)"
    by (simp add: distinct_map)
  moreover have "sorted (map ?f keys)" using keys by simp
  ultimately show ?thesis by (simp add: strict_sorted_iff)
qed

text \<open>
  C6. The rows of the group table are in the order of the sort key (pool id, worker group,
  provider id, position of the state in \<^verbatim>\<open>state_order\<close>), compared lexicographically,
  each group once. \<^verbatim>\<open>state_order\<close> is the four known states followed by the other
  states of the workers, each once, in the order of their first occurrence; every state of
  a row has its position there. In the example the state \<^verbatim>\<open>pending\<close> is appended after
  the four known states, and its row comes after the row of \<^verbatim>\<open>running\<close>.
\<close>

theorem worker_summary_sorted:
  assumes "summary_parts script workers = Inr (t, keys, w)"
  shows "sorted_wrt (<) (map (sort_key_of (state_order t)) keys)
       \<and> distinct keys \<and> set keys = worker_key ` set workers
       \<and> (\<forall>k \<in> set keys. snd (snd (snd k)) \<in> set (state_order t))
       \<and> (\<exists>new. state_order t = [''requested'', ''running'', ''stopping'', ''stopped''] @ new
              \<and> distinct new
              \<and> set new = state_of ` set workers
                            - {''requested'', ''running'', ''stopping'', ''stopped''}
              \<and> sorted_wrt (\<lambda>a b. index_of (map state_of workers) a
                                     < index_of (map state_of workers) b) new)"
proof -
  note p = summary_parts_Inr [OF assms]
  from tally_workers_fields [OF p(1) known_states_init]
  have ks: "key_set t = append_new [] (map worker_key workers)"
    and so: "state_order t = append_new [''requested'', ''running'', ''stopping'', ''stopped'']
                               (map state_of workers)"
    by (simp_all add: tally_init_def)
  from ks have d: "distinct (key_set t)" by (simp add: distinct_append_new)
  from sorted_keys_Inr [OF p(2)] have keys: "keys = sort_key (sort_key_of (state_order t)) (key_set t)"
    and mem: "\<forall>k \<in> set (key_set t). snd (snd (snd k)) \<in> set (state_order t)" by simp_all
  have 1: "sorted_wrt (<) (map (sort_key_of (state_order t)) keys)"
    by (rule strict_sorted_keys [OF p(2) d])
  have 2: "distinct keys" using keys d by simp
  have 3: "set keys = worker_key ` set workers" using keys ks by (simp add: set_append_new)
  have 4: "\<forall>k \<in> set keys. snd (snd (snd k)) \<in> set (state_order t)" using keys mem by simp
  from append_new_first_seen [of "[''requested'', ''running'', ''stopping'', ''stopped'']" "map state_of workers"] so
  have 5: "\<exists>new. state_order t = [''requested'', ''running'', ''stopping'', ''stopped''] @ new
              \<and> distinct new
              \<and> set new = state_of ` set workers
                            - {''requested'', ''running'', ''stopping'', ''stopped''}
              \<and> sorted_wrt (\<lambda>a b. index_of (map state_of workers) a
                                     < index_of (map state_of workers) b) new"
    by auto
  from 1 2 3 4 5 show ?thesis by blast
qed

lemma example_tally: "tally_workers tally_init example_workers = Inr example_tally"
  by (simp add: example_workers_def example_tally_def tally_worker_def get_str_def Let_def)

lemma example_tally_fields:
  "key_set example_tally = [('''', '''', '''', ''running''), ('''', '''', '''', ''pending'')]"
  "state_order example_tally = [''requested'', ''running'', ''stopping'', ''stopped'', ''pending'']"
  "known_states example_tally = {''requested'', ''running'', ''stopping'', ''stopped'', ''pending''}"
  by (auto simp add: example_tally_def tally_add_fields tally_init_def)

lemma example_keys:
  "sorted_keys example_tally = Inr [('''', '''', '''', ''running''), ('''', '''', '''', ''pending'')]"
  by (simp add: sorted_keys_def example_tally_fields sort_key_of_def)

lemma example_column_widths:
  "column_widths Worker_pool_stats example_tally
     [('''', '''', '''', ''running''), ('''', '''', '''', ''pending'')] = Inr example_widths"
  by (simp add: column_widths_def example_tally_fields py_max_def example_widths_def)

lemma example_parts:
  "summary_parts Worker_pool_stats example_workers =
     Inr (example_tally, [('''', '''', '''', ''running''), ('''', '''', '''', ''pending'')],
          example_widths)"
  by (simp add: summary_parts_def example_tally example_keys example_column_widths)

theorem worker_summary_sorted_witness:
  "summary_parts Worker_pool_stats example_workers =
     Inr (example_tally, [('''', '''', '''', ''running''), ('''', '''', '''', ''pending'')],
          example_widths)
   \<and> state_order example_tally = [''requested'', ''running'', ''stopping'', ''stopped'', ''pending'']
   \<and> sorted_wrt (<) (map (sort_key_of (state_order example_tally))
                       [('''', '''', '''', ''running''), ('''', '''', '''', ''pending'')])"
  using worker_summary_sorted [OF example_parts] example_parts example_tally_fields(2)
  by blast

subsection \<open>Column widths\<close>

text \<open>
  Every line of the two tables is its cells, each padded to the width of its column, joined
  by two spaces.
\<close>

lemma group_header_labels:
  "group_header w = join col (map (\<lambda>(n, c). ljust n c) (zip (widths_list w) group_labels))"
  by (simp add: group_header_def widths_list_def group_labels_def)

lemma group_row_cells:
  "group_row w t key = join col (map (\<lambda>(n, c). ljust n c) (zip (widths_list w) (group_cells t key)))"
  by (cases key) (simp add: group_row_def widths_list_def group_cells_def)

lemma state_header_labels:
  "state_header w =
     join col (map (\<lambda>(n, c). ljust n c)
                 (zip [state_len w, workers_len w, capacity_len w] state_labels))"
  by (simp add: state_header_def state_labels_def)

lemma state_row_cells:
  "state_row w t state =
     join col (map (\<lambda>(n, c). ljust n c)
                 (zip [state_len w, workers_len w, capacity_len w] (state_cells t state)))"
  by (simp add: state_row_def state_cells_def)

lemma py_max_Inr: "py_max xs = Inr m \<Longrightarrow> xs \<noteq> [] \<and> m = Max (set xs)"
  by (auto simp: py_max_def split: if_splits)

lemma spec_column_width_max:
  "vals \<noteq> [] \<Longrightarrow> spec_column_width label vals = max (length label) (Max (set (map length vals)))"
  by (simp add: spec_column_width_def)

lemma column_group_cells:
  "column 0 (map (group_cells t) keys) = map fst keys"
  "column 1 (map (group_cells t) keys) = map (\<lambda>k. fst (snd k)) keys"
  "column (Suc 0) (map (group_cells t) keys) = map (\<lambda>k. fst (snd k)) keys"
  "column 2 (map (group_cells t) keys) = map (\<lambda>k. fst (snd (snd k))) keys"
  "column 3 (map (group_cells t) keys) = map (\<lambda>k. snd (snd (snd k))) keys"
  by (auto simp: column_def group_cells_def split: prod.splits)

lemma column_state_cells: "column 0 (map (state_cells t) states) = states"
  by (simp add: column_def state_cells_def map_idI)

lemma column_widths_Inr:
  assumes "column_widths script t keys = Inr w"
  shows "keys \<noteq> []"
    and "pool_id_len w = max (length ''Pool ID'') (Max (set (map (\<lambda>k. length (fst k)) keys)))"
    and "group_len w = max (length ''Group ID'') (Max (set (map (\<lambda>k. length (fst (snd k))) keys)))"
    and "provider_len w = max (length ''Provider ID'') (Max (set (map (\<lambda>k. length (fst (snd (snd k)))) keys)))"
    and "workers_len w = length ''Workers''"
    and "capacity_len w = length ''Capacity''"
    and "script = Worker_pool_stats \<Longrightarrow> state_len w = Max (length ` known_states t)"
    and "script = Worker_dash_pool_dash_stats \<Longrightarrow>
           state_len w = max (length ''State'') (Max (set (map (\<lambda>k. length (snd (snd (snd k)))) keys)))"
proof -
  have ne: "keys \<noteq> []"
    using assms by (cases keys) (simp_all add: column_widths_def py_max_def)
  then have m: "py_max (map f keys) = Inr (Max (set (map f keys)))" for f :: "key \<Rightarrow> nat"
    by (simp add: py_max_def)
  show "keys \<noteq> []" by (rule ne)
  show "pool_id_len w = max (length ''Pool ID'') (Max (set (map (\<lambda>k. length (fst k)) keys)))"
    using assms by (cases script) (auto simp add: column_widths_def m split: if_splits)
  show "group_len w = max (length ''Group ID'') (Max (set (map (\<lambda>k. length (fst (snd k))) keys)))"
    using assms by (cases script) (auto simp add: column_widths_def m split: if_splits)
  show "provider_len w = max (length ''Provider ID'') (Max (set (map (\<lambda>k. length (fst (snd (snd k)))) keys)))"
    using assms by (cases script) (auto simp add: column_widths_def m split: if_splits)
  show "workers_len w = length ''Workers''"
    using assms by (cases script) (auto simp add: column_widths_def m split: if_splits)
  show "capacity_len w = length ''Capacity''"
    using assms by (cases script) (auto simp add: column_widths_def m split: if_splits)
  show "state_len w = Max (length ` known_states t)" if "script = Worker_pool_stats"
    using assms that by (auto simp add: column_widths_def m split: if_splits)
  show "state_len w = max (length ''State'') (Max (set (map (\<lambda>k. length (snd (snd (snd k)))) keys)))"
    if "script = Worker_dash_pool_dash_stats"
    using assms that by (auto simp add: column_widths_def m split: if_splits)
qed


lemma known_states_eq:
  assumes "tally_workers tally_init workers = Inr t"
  shows "known_states t = {''requested'', ''running'', ''stopping'', ''stopped''} \<union> state_of ` set workers"
    and "set (state_order t) = known_states t"
  using tally_workers_fields [OF assms known_states_init]
  by (auto simp: set_append_new tally_init_def)

lemma Max_length_ge: "finite S \<Longrightarrow> s \<in> S \<Longrightarrow> length s \<le> Max (length ` S)"
  by simp

lemma state_table_width:
  assumes "tally_workers tally_init workers = Inr t"
  shows "Max (length ` known_states t)
         = spec_column_width ''State'' (column 0 (map (state_cells t) (state_order t)))"
proof -
  note k = known_states_eq [OF assms]
  have fin: "finite (known_states t)" using k(1) by simp
  have "''requested'' \<in> known_states t" using k(1) by simp
  from Max_length_ge [OF fin this] have "length ''State'' \<le> Max (length ` known_states t)"
    by simp
  moreover have "known_states t \<noteq> {}" using k(1) by simp
  ultimately show ?thesis using fin k(2)
    by (simp add: column_state_cells spec_column_width_def max_def)
qed

lemma pool_widths_Inr:
  assumes "pool_widths ps keys = Inr ws"
  shows "ws = map (\<lambda>(i, title). spec_column_width title (column i (map pool_cells keys))) ps"
  using assms
proof (induction ps arbitrary: ws)
  case Nil
  then show ?case by simp
next
  case (Cons p ps)
  obtain i title where p: "p = (i, title)" by (cases p) auto
  from Cons.prems p obtain m ws' where
    m: "py_max (map (\<lambda>key. length (pool_cells key ! i)) keys) = Inr m"
    and ws': "pool_widths ps keys = Inr ws'" and ws: "ws = max (length title) m # ws'"
    by (auto split: sum.splits)
  from py_max_Inr [OF m] have ne: "keys \<noteq> []"
    and mm: "m = Max (set (map (\<lambda>key. length (pool_cells key ! i)) keys))" by simp_all
  have "column i (map pool_cells keys) = map (\<lambda>key. pool_cells key ! i) keys"
    by (simp add: column_def)
  with ne mm have "max (length title) m = spec_column_width title (column i (map pool_cells keys))"
    by (simp add: spec_column_width_def image_image)
  with Cons.IH [OF ws'] ws p show ?case by simp
qed

lemma map_enumerate:
  "map (\<lambda>(i, x). f i x) (enumerate 0 xs) = map (\<lambda>i. f i (xs ! i)) [0..<length xs]"
  by (rule nth_equalityI) (auto simp: nth_enumerate_eq)

lemma pool_summary_widths:
  assumes "pool_summary_parts pools = Inr (pkeys, width)"
  shows "width = spec_widths titles (map pool_cells pkeys)"
proof -
  from assms have "pool_widths (enumerate 0 titles) pkeys = Inr width"
    by (auto simp: pool_summary_parts_def split: sum.splits)
  from pool_widths_Inr [OF this] show ?thesis
    by (simp add: spec_widths_def map_enumerate)
qed

lemma worker_summary_widths:
  assumes "summary_parts script workers = Inr (t, keys, w)"
  shows "pool_id_len w = spec_column_width ''Pool ID'' (column 0 (map (group_cells t) keys))"
    and "group_len w = spec_column_width ''Group ID'' (column 1 (map (group_cells t) keys))"
    and "provider_len w = spec_column_width ''Provider ID'' (column 2 (map (group_cells t) keys))"
    and "workers_len w = length ''Workers''"
    and "capacity_len w = length ''Capacity''"
    and "script = Worker_pool_stats \<Longrightarrow>
           state_len w = Max (length ` ({''requested'', ''running'', ''stopping'', ''stopped''}
                                       \<union> state_of ` set workers))"
    and "script = Worker_pool_stats \<Longrightarrow>
           state_len w = spec_column_width ''State'' (column 0 (map (state_cells t) (state_order t)))"
    and "script = Worker_dash_pool_dash_stats \<Longrightarrow>
           state_len w = spec_column_width ''State'' (column 3 (map (group_cells t) keys))"
proof -
  note p = summary_parts_Inr [OF assms]
  note c = column_widths_Inr [OF p(3)]
  from c(1) have ne: "map f keys \<noteq> []" for f :: "key \<Rightarrow> string" by simp
  show "pool_id_len w = spec_column_width ''Pool ID'' (column 0 (map (group_cells t) keys))"
    using c(2) ne by (simp add: column_group_cells spec_column_width_def image_image)
  show "group_len w = spec_column_width ''Group ID'' (column 1 (map (group_cells t) keys))"
    using c(3) ne by (simp add: column_group_cells spec_column_width_def image_image)
  show "provider_len w = spec_column_width ''Provider ID'' (column 2 (map (group_cells t) keys))"
    using c(4) ne by (simp add: column_group_cells spec_column_width_def image_image)
  show "workers_len w = length ''Workers''" by (rule c(5))
  show "capacity_len w = length ''Capacity''" by (rule c(6))
  show "state_len w = Max (length ` ({''requested'', ''running'', ''stopping'', ''stopped''}
                                       \<union> state_of ` set workers))"
    if "script = Worker_pool_stats"
    using c(7) [OF that] known_states_eq(1) [OF p(1)] by simp
  show "state_len w = spec_column_width ''State'' (column 0 (map (state_cells t) (state_order t)))"
    if "script = Worker_pool_stats"
    using c(7) [OF that] state_table_width [OF p(1)] by simp
  show "state_len w = spec_column_width ''State'' (column 3 (map (group_cells t) keys))"
    if "script = Worker_dash_pool_dash_stats"
    using c(8) [OF that] ne by (simp add: column_group_cells spec_column_width_def image_image)
qed

lemma example_parts_dash:
  "summary_parts Worker_dash_pool_dash_stats example_workers =
     Inr (example_tally, [('''', '''', '''', ''running''), ('''', '''', '''', ''pending'')],
          example_widths_dash)"
  by (simp add: summary_parts_def example_tally example_keys column_widths_def py_max_def
      example_widths_dash_def)

lemma example_collect_keys:
  "collect_keys [] example_pools =
     Inr [(''proj/b'', ''gcp'', 0, None, None, '''', 0),
          (''proj/a'', ''aws'', 12, Some 0, Some 100, ''me@example.com'', 2)]"
  by (simp add: example_pools_def pool_key_of_def get_str_def empty_config_def Let_def)

lemma example_sorted_pool_keys:
  "sorted_pool_keys [(''proj/b'', ''gcp'', 0, None, None, '''', 0),
          (''proj/a'', ''aws'', 12, Some 0, Some 100, ''me@example.com'', 2)] = Inr example_pool_keys"
  by (simp add: sorted_pool_keys_def comparable_def example_pool_keys_def)

lemma str_examples:
  "str_int 12 = ''12''" "str_int 0 = ''0''" "str_int 100 = ''100''" "str_int 2 = ''2''"
  "str_int 1 = ''1''" "str_int 5 = ''5''"
  by (simp_all add: str_int_def str_nat.simps digit_char_def)

lemma example_pool_widths:
  "pool_widths (enumerate 0 titles) example_pool_keys = Inr [7, 11, 8, 7, 7, 14, 14]"
  by (simp add: titles_def example_pool_keys_def py_max_def pool_cells_def str_cap_def
      str_examples)

lemma example_pool_parts:
  "pool_summary_parts example_pools = Inr (example_pool_keys, [7, 11, 8, 7, 7, 14, 14])"
  by (simp add: pool_summary_parts_def example_collect_keys example_sorted_pool_keys
      example_pool_widths)

lemma example_counts:
  "key_worker_counts example_tally ('''', '''', '''', ''running'') = 2"
  "key_capacity_counts example_tally ('''', '''', '''', ''running'') = 5"
  "key_worker_counts example_tally ('''', '''', '''', ''pending'') = 1"
  "key_capacity_counts example_tally ('''', '''', '''', ''pending'') = 1"
  "state_worker_counts example_tally ''running'' = 2"
  "state_capacity_counts example_tally ''running'' = 2"
  "state_worker_counts example_tally ''pending'' = 1"
  "state_capacity_counts example_tally ''pending'' = 1"
  "state_worker_counts example_tally ''requested'' = 0"
  "state_capacity_counts example_tally ''requested'' = 0"
  "state_worker_counts example_tally ''stopping'' = 0"
  "state_capacity_counts example_tally ''stopping'' = 0"
  "state_worker_counts example_tally ''stopped'' = 0"
  "state_capacity_counts example_tally ''stopped'' = 0"
  by (simp_all add: example_tally_def tally_add_fields tally_init_def)

lemma example_group_spec_widths:
  "spec_widths group_labels
     (map (group_cells example_tally) [('''', '''', '''', ''running''), ('''', '''', '''', ''pending'')])
   = [7, 8, 11, 7, 7, 8]"
  by (simp add: spec_widths_def group_labels_def group_cells_def column_def
      spec_column_width_def example_counts str_examples upt_rec)

text \<open>
  C4 as stated, that every column of every table is as wide as the longer of its label and
  its longest value, fails for the group table of \<^verbatim>\<open>worker_pool_stats.py\<close>: for the example
  workers the State column holds \<^verbatim>\<open>running\<close> and \<^verbatim>\<open>pending\<close> (7 characters) under the
  label \<^verbatim>\<open>State\<close>, and is 9 wide, the length of \<^verbatim>\<open>requested\<close>.
\<close>

theorem group_table_widths_counterexample:
  "summary_parts Worker_pool_stats example_workers =
     Inr (example_tally, [('''', '''', '''', ''running''), ('''', '''', '''', ''pending'')],
          example_widths)
   \<and> widths_list example_widths = [7, 8, 11, 9, 7, 8]
   \<and> spec_widths group_labels
         (map (group_cells example_tally)
            [('''', '''', '''', ''running''), ('''', '''', '''', ''pending'')])
       = [7, 8, 11, 7, 7, 8]
   \<and> widths_list example_widths
       \<noteq> spec_widths group_labels
           (map (group_cells example_tally)
              [('''', '''', '''', ''running''), ('''', '''', '''', ''pending'')])"
  using example_parts example_group_spec_widths
  by (simp add: widths_list_def example_widths_def)

text \<open>
  C4, as the code has it. In the worker-pool summary every column is as wide as the longer of
  its title and its longest stringified value. In the worker summary that holds for the
  columns Pool ID, Group ID and Provider ID; the columns Workers and Capacity have the width
  of their labels, whatever the values. The State column of \<^verbatim>\<open>worker_pool_stats.py\<close> is as
  wide as the longest of the four known states and the states of the workers (the label is
  not counted), which is the specified width for the per-state table; the State column of
  \<^verbatim>\<open>worker-pool-stats.py\<close> has the specified width for the group table.
\<close>

theorem summary_column_widths:
  "(summary_parts Worker_pool_stats workers = Inr (t, keys, w) \<longrightarrow>
      pool_id_len w = spec_column_width ''Pool ID'' (column 0 (map (group_cells t) keys))
    \<and> group_len w = spec_column_width ''Group ID'' (column 1 (map (group_cells t) keys))
    \<and> provider_len w = spec_column_width ''Provider ID'' (column 2 (map (group_cells t) keys))
    \<and> state_len w = Max (length ` ({''requested'', ''running'', ''stopping'', ''stopped''}
                                    \<union> state_of ` set workers))
    \<and> state_len w = spec_column_width ''State'' (column 0 (map (state_cells t) (state_order t)))
    \<and> workers_len w = length ''Workers''
    \<and> capacity_len w = length ''Capacity'')
   \<and> (summary_parts Worker_dash_pool_dash_stats workers = Inr (t', keys', w') \<longrightarrow>
      pool_id_len w' = spec_column_width ''Pool ID'' (column 0 (map (group_cells t') keys'))
    \<and> group_len w' = spec_column_width ''Group ID'' (column 1 (map (group_cells t') keys'))
    \<and> provider_len w' = spec_column_width ''Provider ID'' (column 2 (map (group_cells t') keys'))
    \<and> state_len w' = spec_column_width ''State'' (column 3 (map (group_cells t') keys'))
    \<and> workers_len w' = length ''Workers''
    \<and> capacity_len w' = length ''Capacity'')
   \<and> (pool_summary_parts pools = Inr (pool_keys, width) \<longrightarrow>
      width = spec_widths titles (map pool_cells pool_keys))"
proof (intro conjI impI)
  assume a: "summary_parts Worker_pool_stats workers = Inr (t, keys, w)"
  note x = worker_summary_widths [OF a]
  show "pool_id_len w = spec_column_width ''Pool ID'' (column 0 (map (group_cells t) keys))"
    by (rule x(1))
  show "group_len w = spec_column_width ''Group ID'' (column 1 (map (group_cells t) keys))"
    by (rule x(2))
  show "provider_len w = spec_column_width ''Provider ID'' (column 2 (map (group_cells t) keys))"
    by (rule x(3))
  show "state_len w = Max (length ` ({''requested'', ''running'', ''stopping'', ''stopped''}
                                    \<union> state_of ` set workers))"
    by (rule x(6)) simp
  show "state_len w = spec_column_width ''State'' (column 0 (map (state_cells t) (state_order t)))"
    by (rule x(7)) simp
  show "workers_len w = length ''Workers''" by (rule x(4))
  show "capacity_len w = length ''Capacity''" by (rule x(5))
next
  assume a: "summary_parts Worker_dash_pool_dash_stats workers = Inr (t', keys', w')"
  note x = worker_summary_widths [OF a]
  show "pool_id_len w' = spec_column_width ''Pool ID'' (column 0 (map (group_cells t') keys'))"
    by (rule x(1))
  show "group_len w' = spec_column_width ''Group ID'' (column 1 (map (group_cells t') keys'))"
    by (rule x(2))
  show "provider_len w' = spec_column_width ''Provider ID'' (column 2 (map (group_cells t') keys'))"
    by (rule x(3))
  show "state_len w' = spec_column_width ''State'' (column 3 (map (group_cells t') keys'))"
    by (rule x(8)) simp
  show "workers_len w' = length ''Workers''" by (rule x(4))
  show "capacity_len w' = length ''Capacity''" by (rule x(5))
next
  assume "pool_summary_parts pools = Inr (pool_keys, width)"
  then show "width = spec_widths titles (map pool_cells pool_keys)"
    by (rule pool_summary_widths)
qed

theorem summary_column_widths_witness:
  "summary_parts Worker_pool_stats example_workers =
     Inr (example_tally, [('''', '''', '''', ''running''), ('''', '''', '''', ''pending'')],
          example_widths)
   \<and> summary_parts Worker_dash_pool_dash_stats example_workers =
     Inr (example_tally, [('''', '''', '''', ''running''), ('''', '''', '''', ''pending'')],
          example_widths_dash)
   \<and> pool_summary_parts example_pools = Inr (example_pool_keys, [7, 11, 8, 7, 7, 14, 14])
   \<and> state_len example_widths
       = spec_column_width ''State''
           (column 0 (map (state_cells example_tally) (state_order example_tally)))
   \<and> state_len example_widths_dash
       = spec_column_width ''State''
           (column 3 (map (group_cells example_tally)
                        [('''', '''', '''', ''running''), ('''', '''', '''', ''pending'')]))
   \<and> [7, 11, 8, 7, 7, 14, 14] = spec_widths titles (map pool_cells example_pool_keys)"
  using summary_column_widths [of example_workers example_tally
      "[('''', '''', '''', ''running''), ('''', '''', '''', ''pending'')]" example_widths
      example_tally "[('''', '''', '''', ''running''), ('''', '''', '''', ''pending'')]"
      example_widths_dash example_pools example_pool_keys "[7, 11, 8, 7, 7, 14, 14]"]
    example_parts example_parts_dash example_pool_parts
  by blast

subsection \<open>Empty input\<close>

text \<open>
  C10. Given no records, \<^verbatim>\<open>worker_summary\<close> (in both scripts) and
  \<^verbatim>\<open>worker_pool_summary\<close> raise \<^verbatim>\<open>ValueError\<close>: the width computation takes \<^verbatim>\<open>max\<close>
  of an empty sequence. No table is rendered.
\<close>

theorem summaries_fail_on_empty:
  "worker_summary [] = Inl ValueError
   \<and> worker_summary_dash [] = Inl ValueError
   \<and> worker_pool_summary [] = Inl ValueError"
  by (simp add: worker_summary_def worker_summary_dash_def worker_summary_of_def
      summary_parts_def tally_init_def sorted_keys_def column_widths_def py_max_def
      worker_pool_summary_def pool_summary_parts_def sorted_pool_keys_def titles_def)

text \<open>
  The empty list is the only input on which the width computation fails: given at least one
  record, the worker summary is rendered whenever the capacities convert, and the worker-pool
  summary whenever the capacities convert and the keys can be sorted.
\<close>

lemma append_new_nonempty: "xs \<noteq> [] \<Longrightarrow> append_new seen xs \<noteq> []"
  using set_append_new [of seen xs] by (cases xs) auto

lemma worker_summary_nonempty:
  assumes "tally_workers tally_init workers = Inr t" and "workers \<noteq> []"
  shows "\<exists>keys w. summary_parts script workers = Inr (t, keys, w)"
proof -
  from tally_workers_fields [OF assms(1) known_states_init]
  have ks: "key_set t = append_new [] (map worker_key workers)"
    and so: "set (state_order t) = set (state_order tally_init) \<union> state_of ` set workers"
    and kn: "known_states t = set (state_order t)"
    by (simp_all add: tally_init_def set_append_new)
  have mem: "\<forall>k \<in> set (key_set t). snd (snd (snd k)) \<in> set (state_order t)"
    using ks so by (auto simp: set_append_new worker_key_def state_of_def)
  then have sk: "sorted_keys t = Inr (sort_key (sort_key_of (state_order t)) (key_set t))"
    by (simp add: sorted_keys_def)
  let ?keys = "sort_key (sort_key_of (state_order t)) (key_set t)"
  from assms(2) ks have "key_set t \<noteq> []" by (simp add: append_new_nonempty)
  then have ne: "?keys \<noteq> []" by (metis length_sort length_0_conv)
  from kn so have kne: "known_states t \<noteq> {}" by (simp add: tally_init_def)
  from ne kne have "\<exists>w. column_widths script t ?keys = Inr w"
    by (cases script) (simp_all add: column_widths_def py_max_def)
  with assms(1) sk show ?thesis by (auto simp: summary_parts_def)
qed

lemma worker_pool_summary_nonempty:
  assumes "collect_keys [] pools = Inr key_set'" and "pools \<noteq> []"
    and "\<forall>k \<in> set key_set'. \<forall>k' \<in> set key_set'. comparable k k'"
  shows "\<exists>keys width. pool_summary_parts pools = Inr (keys, width)"
proof -
  have grow: "collect_keys ks ps = Inr ks' \<Longrightarrow> ps \<noteq> [] \<or> ks \<noteq> [] \<Longrightarrow> ks' \<noteq> []" for ks ps ks'
  proof (induction ps arbitrary: ks)
    case Nil
    then show ?case by simp
  next
    case (Cons p ps)
    from Cons.prems(1) obtain key where
      "collect_keys (if key \<in> set ks then ks else ks @ [key]) ps = Inr ks'"
      by (auto split: sum.splits)
    moreover have "(if key \<in> set ks then ks else ks @ [key]) \<noteq> []" by auto
    ultimately show ?case using Cons.IH by blast
  qed
  from grow [OF assms(1)] assms(2) have "key_set' \<noteq> []" by simp
  then have ne: "sort key_set' \<noteq> []" by (metis length_sort length_0_conv)
  have w: "keys \<noteq> [] \<Longrightarrow> \<exists>ws. pool_widths ps keys = Inr ws" for ps and keys :: "pool_key list"
    by (induction ps) (auto simp: py_max_def)
  from w [OF ne] obtain ws where "pool_widths (enumerate 0 titles) (sort key_set') = Inr ws"
    by blast
  with assms(1,3) show ?thesis by (simp add: pool_summary_parts_def sorted_pool_keys_def)
qed

subsection \<open>Totals\<close>

text \<open>
  For every list of workers the per-group capacity counts add up to the workers' capacities,
  and the per-group and per-state worker counts to the number of workers. The per-state
  capacity count of every state equals its worker count, so these counts too add up to the
  number of workers, not to the capacities.
\<close>

lemma tally_worker_capacity:
  assumes "tally_worker t worker = Inr t'"
  shows "t' = tally_add t (worker_key worker) (state_of worker) (capacity_of worker)"
  using tally_worker_Inr [OF assms] by (auto simp: capacity_of_def)

lemma state_capacity_is_worker_count:
  assumes "tally_workers t workers = Inr t'"
    and "state_capacity_counts t = state_worker_counts t"
  shows "state_capacity_counts t' = state_worker_counts t'"
  using assms
proof (induction workers arbitrary: t)
  case Nil
  then show ?case by simp
next
  case (Cons w ws)
  from Cons.prems(1) obtain t1 where t1: "tally_worker t w = Inr t1" "tally_workers t1 ws = Inr t'"
    by (auto split: sum.splits)
  from tally_worker_capacity [OF t1(1)] Cons.prems(2)
  have "state_capacity_counts t1 = state_worker_counts t1"
    by (simp add: tally_add_fields)
  from Cons.IH [OF t1(2) this] show ?case .
qed

lemma sum_list_fun_upd:
  fixes f :: "'a \<Rightarrow> int"
  assumes "distinct xs"
  shows "sum_list (map (f(k := f k + c)) xs) = sum_list (map f xs) + (if k \<in> set xs then c else 0)"
  using assms by (induction xs) auto

lemma counted_step:
  assumes "counted f xs"
  shows "counted (f(k := f k + c)) (append_new xs [k])"
    and "sum_list (map (f(k := f k + c)) (append_new xs [k])) = sum_list (map f xs) + c"
  using assms by (auto simp: counted_def sum_list_fun_upd)

lemma tally_sums:
  assumes "tally_workers t workers = Inr t'"
    and "counted (key_capacity_counts t) (key_set t)"
    and "counted (key_worker_counts t) (key_set t)"
    and "counted (state_worker_counts t) (state_order t)"
    and "known_states t = set (state_order t)"
  shows "sum_list (map (key_capacity_counts t') (key_set t'))
           = sum_list (map (key_capacity_counts t) (key_set t)) + sum_list (map capacity_of workers)
       \<and> sum_list (map (key_worker_counts t') (key_set t'))
           = sum_list (map (key_worker_counts t) (key_set t)) + int (length workers)
       \<and> sum_list (map (state_worker_counts t') (state_order t'))
           = sum_list (map (state_worker_counts t) (state_order t)) + int (length workers)"
  using assms
proof (induction workers arbitrary: t)
  case Nil
  then show ?case by simp
next
  case (Cons w ws)
  from Cons.prems(1) obtain t1 where t1: "tally_worker t w = Inr t1" "tally_workers t1 ws = Inr t'"
    by (auto split: sum.splits)
  note e = tally_worker_capacity [OF t1(1)]
  have so: "state_order t1 = append_new (state_order t) [state_of w]"
    and ks: "key_set t1 = append_new (key_set t) [worker_key w]"
    and kn: "known_states t1 = set (state_order t1)"
    using tally_worker_fields [OF t1(1) Cons.prems(5)] by simp_all
  have kc: "key_capacity_counts t1 = (key_capacity_counts t)
              (worker_key w := key_capacity_counts t (worker_key w) + capacity_of w)"
    and kw: "key_worker_counts t1 = (key_worker_counts t)
              (worker_key w := key_worker_counts t (worker_key w) + 1)"
    and sw: "state_worker_counts t1 = (state_worker_counts t)
              (state_of w := state_worker_counts t (state_of w) + 1)"
    by (simp_all add: e tally_add_fields)
  note c1 = counted_step [OF Cons.prems(2), of "worker_key w" "capacity_of w", folded kc ks]
  note c2 = counted_step [OF Cons.prems(3), of "worker_key w" 1, folded kw ks]
  note c3 = counted_step [OF Cons.prems(4), of "state_of w" 1, folded sw so]
  from Cons.IH [OF t1(2) c1(1) c2(1) c3(1) kn] c1(2) c2(2) c3(2)
  show ?case by simp
qed

lemma counted_init:
  "counted (key_capacity_counts tally_init) (key_set tally_init)"
  "counted (key_worker_counts tally_init) (key_set tally_init)"
  "counted (state_worker_counts tally_init) (state_order tally_init)"
  by (simp_all add: counted_def tally_init_def)

lemma worker_summary_sums:
  assumes "tally_workers tally_init workers = Inr t"
  shows "sum_list (map (key_capacity_counts t) (key_set t)) = sum_list (map capacity_of workers)"
    and "sum_list (map (state_capacity_counts t) (state_order t)) = int (length workers)"
    and "sum_list (map (key_worker_counts t) (key_set t)) = int (length workers)"
    and "sum_list (map (state_worker_counts t) (state_order t)) = int (length workers)"
proof -
  note s = tally_sums [OF assms counted_init known_states_init]
  have z: "state_capacity_counts t = state_worker_counts t"
    by (rule state_capacity_is_worker_count [OF assms]) (simp add: tally_init_def)
  show "sum_list (map (key_capacity_counts t) (key_set t)) = sum_list (map capacity_of workers)"
    using s by (simp add: tally_init_def)
  show "sum_list (map (key_worker_counts t) (key_set t)) = int (length workers)"
    using s by (simp add: tally_init_def)
  show "sum_list (map (state_worker_counts t) (state_order t)) = int (length workers)"
    using s by (simp add: tally_init_def)
  then show "sum_list (map (state_capacity_counts t) (state_order t)) = int (length workers)"
    by (simp add: z)
qed

subsection \<open>Totals of the example\<close>

lemma example_summary_text:
  "summary_text example_tally [('''', '''', '''', ''running''), ('''', '''', '''', ''pending'')]
     example_widths =
   ''Pool ID  Group ID  Provider ID  State      Workers  Capacity\<newline>                                running    2        5       \<newline>                                pending    1        1       \<newline>\<newline>\<newline>State      Workers  Capacity\<newline>requested  0        0       \<newline>running    2        2       \<newline>stopping   0        0       \<newline>stopped    0        0       \<newline>pending    1        1       ''"
  by (simp add: summary_text_def group_header_def group_row_def state_header_def
      state_row_def ljust_def col_def example_widths_def example_counts str_examples
      example_tally_fields eval_nat_numeral)

text \<open>
  C1. The per-state capacity counts are to add up to the workers' capacities, as the
  per-group counts do; for the example workers the state \<^verbatim>\<open>running\<close> is to show 2 workers
  and capacity 5. The code counts 1 per worker in \<^verbatim>\<open>state_capacity_counts\<close>: the state
  \<^verbatim>\<open>running\<close> gets 2 workers and capacity 2, while the group of the two running workers
  gets capacity 5. The rendered summary shows both.
\<close>

theorem worker_summary_example_totals:
  "state_totals example_workers ''running'' = Inr (2, 2)
   \<and> group_totals example_workers ('''', '''', '''', ''running'') = Inr (2, 5)
   \<and> worker_summary example_workers =
       Inr ''Pool ID  Group ID  Provider ID  State      Workers  Capacity\<newline>                                running    2        5       \<newline>                                pending    1        1       \<newline>\<newline>\<newline>State      Workers  Capacity\<newline>requested  0        0       \<newline>running    2        2       \<newline>stopping   0        0       \<newline>stopped    0        0       \<newline>pending    1        1       ''"
  by (simp add: state_totals_def group_totals_def example_tally example_counts
      worker_summary_def worker_summary_of_def example_parts example_summary_text)

section \<open>Properties of the config flattener\<close>

lemma checked_Nil: "distinct (map fst ret) \<Longrightarrow> checked ret [] = Inr ret"
  by (simp add: checked_def)

lemma checked_seq:
  "(case checked ret a of Inl e \<Rightarrow> Inl e | Inr ret' \<Rightarrow> checked ret' b) = checked ret (a @ b)"
  by (auto simp: checked_def)

lemma checked_Inr: "checked ret a = Inr b \<Longrightarrow> distinct (map fst b) \<and> b = ret @ a"
  by (auto simp: checked_def split: if_splits)

lemma store_checked: "distinct (map fst ret) \<Longrightarrow> store ret k v = checked ret [(k, v)]"
  by (auto simp: store_def checked_def)

lemma insert_all_checked:
  "distinct (map fst ret) \<Longrightarrow> insert_all ret pre nested = checked ret (map (add_prefix pre) nested)"
proof (induction nested arbitrary: ret)
  case Nil
  then show ?case by (simp add: checked_Nil)
next
  case (Cons p nested)
  obtain k v where p: "p = (k, v)" by (cases p) auto
  show ?case
  proof (cases "pre @ k \<in> fst ` set ret")
    case True
    then show ?thesis by (auto simp: p store_def checked_def add_prefix_def)
  next
    case False
    with Cons.prems have d: "distinct (map fst (ret @ [(pre @ k, v)]))" by auto
    from False have "insert_all ret pre (p # nested) = insert_all (ret @ [(pre @ k, v)]) pre nested"
      by (simp add: p store_def)
    also have "\<dots> = checked (ret @ [(pre @ k, v)]) (map (add_prefix pre) nested)"
      by (rule Cons.IH [OF d])
    also have "\<dots> = checked ret (map (add_prefix pre) (p # nested))"
      by (simp add: checked_def p add_prefix_def)
    finally show ?thesis .
  qed
qed

lemma distinct_add_prefix:
  "distinct (map fst (map (add_prefix pre) xs)) = distinct (map fst xs)"
proof -
  have "map fst (map (add_prefix pre) xs) = map ((@) pre) (map fst xs)"
    by (simp add: add_prefix_def comp_def)
  then show ?thesis by (simp add: distinct_map inj_on_def del: map_map)
qed

lemma nested_checked:
  assumes "flatten_config d k s = checked [] D" and "distinct (map fst ret)"
  shows "(case flatten_config d k s of Inl e \<Rightarrow> Inl e | Inr nested \<Rightarrow> insert_all ret pre nested)
         = checked ret (map (add_prefix pre) D)"
proof (cases "distinct (map fst D)")
  case True
  with assms show ?thesis by (simp add: checked_def [of "[]"] insert_all_checked)
next
  case False
  then have "\<not> distinct (map fst (map (add_prefix pre) D))"
    using distinct_add_prefix [of pre D] by blast
  then have "checked ret (map (add_prefix pre) D) = Inl AssertionError"
    by (simp add: checked_def)
  with False assms show ?thesis by (simp add: checked_def [of "[]"])
qed

lemma flatten_checked:
  "flatten_config d prefix suffix = checked [] (derived d prefix suffix)"
  "distinct (map fst ret) \<Longrightarrow>
     flatten_items its pre suffix ret = checked ret (derived_items its pre suffix)"
  "distinct (map fst ret) \<Longrightarrow>
     flatten_list js pos key pre suffix ret = checked ret (derived_list js pos key pre suffix)"
proof (induction d prefix suffix and its pre suffix ret and js pos key pre suffix ret
       rule: flatten_config_flatten_items_flatten_list.induct)
  case (1 config_dict prefix suffix)
  then show ?case by simp
next
  case (2 pre suffix ret)
  then show ?case by (simp add: checked_Nil)
next
  case (3 key val rest pre suffix ret)
  let ?first = "(case val of
                   JDict d \<Rightarrow> map (add_prefix pre) (derived d key suffix)
                 | JList items \<Rightarrow>
                     if suffix then derived_list items 0 key pre suffix else [(pre @ key, val)]
                 | _ \<Rightarrow> [(pre @ key, val)])"
  let ?step = "(case val of
              JDict d \<Rightarrow>
                (case flatten_config d key suffix of
                   Inl e \<Rightarrow> Inl e
                 | Inr nested \<Rightarrow> insert_all ret pre nested)
            | JList items \<Rightarrow>
                if suffix then flatten_list items 0 key pre suffix ret
                else store ret (pre @ key) val
            | _ \<Rightarrow> store ret (pre @ key) val)"
  have step: "?step = checked ret ?first"
  proof (cases val)
    case (JDict d)
    from "3.IH"(2) [OF JDict] have "flatten_config d key suffix = checked [] (derived d key suffix)" .
    from nested_checked [OF this "3.prems"] JDict show ?thesis by simp
  next
    case (JList items)
    show ?thesis
    proof (cases suffix)
      case True
      from "3.IH"(1) [OF JList True "3.prems"] JList True show ?thesis by simp
    next
      case False
      with JList "3.prems" show ?thesis by (simp add: store_checked)
    qed
  qed (simp_all add: store_checked "3.prems")
  have "flatten_items ((key, val) # rest) pre suffix ret
        = (case ?step of Inl e \<Rightarrow> Inl e | Inr ret' \<Rightarrow> flatten_items rest pre suffix ret')"
    by simp
  also have "\<dots> = (case checked ret ?first of Inl e \<Rightarrow> Inl e
                     | Inr ret' \<Rightarrow> checked ret' (derived_items rest pre suffix))"
  proof (cases "checked ret ?first")
    case (Inl e)
    then show ?thesis unfolding step by simp
  next
    case (Inr b)
    then have s: "?step = Inr b" by (simp only: step)
    from checked_Inr [OF Inr] have "distinct (map fst b)" by (rule conjunct1)
    from "3.IH"(3) [OF s this] Inr show ?thesis unfolding step by simp
  qed
  also have "\<dots> = checked ret (?first @ derived_items rest pre suffix)"
    by (rule checked_seq)
  finally show ?case by simp
next
  case (4 pos key pre suffix ret)
  then show ?case by (simp add: checked_Nil)
next
  case (5 item items pos key pre suffix ret)
  let ?first = "(case item of
        JDict d \<Rightarrow> map (add_prefix pre) (derived d (key @ ''_'' @ str_nat pos) suffix)
      | _ \<Rightarrow> [(pre @ key @ ''_'' @ str_nat pos, item)])"
  let ?step = "(case item of
              JDict d \<Rightarrow>
                (case flatten_config d (key @ ''_'' @ str_nat pos) suffix of
                   Inl e \<Rightarrow> Inl e
                 | Inr nested \<Rightarrow> insert_all ret pre nested)
            | _ \<Rightarrow> store ret (pre @ key @ ''_'' @ str_nat pos) item)"
  have step: "?step = checked ret ?first"
  proof (cases item)
    case (JDict d)
    from "5.IH"(1) [OF JDict]
    have "flatten_config d (key @ ''_'' @ str_nat pos) suffix
          = checked [] (derived d (key @ ''_'' @ str_nat pos) suffix)" .
    from nested_checked [OF this "5.prems"] JDict show ?thesis by simp
  qed (simp_all add: store_checked "5.prems")
  have "flatten_list (item # items) pos key pre suffix ret
        = (case ?step of Inl e \<Rightarrow> Inl e
           | Inr ret' \<Rightarrow> flatten_list items (Suc pos) key pre suffix ret')"
    by simp
  also have "\<dots> = (case checked ret ?first of Inl e \<Rightarrow> Inl e
                     | Inr ret' \<Rightarrow> checked ret' (derived_list items (Suc pos) key pre suffix))"
  proof (cases "checked ret ?first")
    case (Inl e)
    then show ?thesis unfolding step by simp
  next
    case (Inr b)
    then have s: "?step = Inr b" by (simp only: step)
    from checked_Inr [OF Inr] have "distinct (map fst b)" by (rule conjunct1)
    from "5.IH"(2) [OF s this] Inr show ?thesis unfolding step by simp
  qed
  also have "\<dots> = checked ret (?first @ derived_list items (Suc pos) key pre suffix)"
    by (rule checked_seq)
  finally show ?case by simp
qed

text \<open>
  C9. One call of the flattener either fails with the assertion error (the specification's
  \<^verbatim>\<open>DuplicateFlattenedKey\<close>) or returns a dictionary whose keys are all different: it
  returns exactly when the compound keys derived from the paths of the input are pairwise
  different, and then the result holds each derived key once, with its value; when two paths
  derive the same key it fails, and nothing is overwritten.
\<close>

theorem flatten_config_unique_keys:
  "flatten_config config_dict prefix suffix =
     (if distinct (map fst (derived config_dict prefix suffix))
      then Inr (derived config_dict prefix suffix)
      else Inl AssertionError)
   \<and> (flatten_config config_dict prefix suffix = Inr ret \<longrightarrow>
        distinct (map fst ret) \<and> ret = derived config_dict prefix suffix)"
proof -
  have e: "flatten_config config_dict prefix suffix = checked [] (derived config_dict prefix suffix)"
    by (rule flatten_checked(1))
  then show ?thesis by (auto simp: checked_def split: if_splits)
qed

lemma nested_config_flat:
  "flatten_config nested_config ''lc'' True =
     Inr [(''lc_region'', JStr ''us-west1''),
          (''lc_disks_0_initializeParams_sourceImage'', JStr ''img''),
          (''lc_disks_1'', JStr ''scratch''),
          (''lc_launchConfig_ImageId'', JStr ''ami-1'')]"
  by (simp add: nested_config_def store_def str_nat.simps digit_char_def)

lemma colliding_config_derived:
  "derived colliding_config '''' False = [(''a_b'', JInt 1), (''a_b'', JInt 2)]"
  by (simp add: colliding_config_def add_prefix_def)

theorem flatten_config_unique_keys_witness:
  "flatten_config nested_config ''lc'' True =
     Inr [(''lc_region'', JStr ''us-west1''),
          (''lc_disks_0_initializeParams_sourceImage'', JStr ''img''),
          (''lc_disks_1'', JStr ''scratch''),
          (''lc_launchConfig_ImageId'', JStr ''ami-1'')]
   \<and> distinct (map fst [(''lc_region'', JStr ''us-west1''),
          (''lc_disks_0_initializeParams_sourceImage'', JStr ''img''),
          (''lc_disks_1'', JStr ''scratch''),
          (''lc_launchConfig_ImageId'', JStr ''ami-1'')])
   \<and> derived colliding_config '''' False = [(''a_b'', JInt 1), (''a_b'', JInt 2)]
   \<and> flatten_config colliding_config '''' False = Inl AssertionError"
proof (intro conjI)
  show 1: "flatten_config nested_config ''lc'' True =
     Inr [(''lc_region'', JStr ''us-west1''),
          (''lc_disks_0_initializeParams_sourceImage'', JStr ''img''),
          (''lc_disks_1'', JStr ''scratch''),
          (''lc_launchConfig_ImageId'', JStr ''ami-1'')]"
    by (rule nested_config_flat)
  from flatten_config_unique_keys [of nested_config "''lc''" True
      "[(''lc_region'', JStr ''us-west1''),
          (''lc_disks_0_initializeParams_sourceImage'', JStr ''img''),
          (''lc_disks_1'', JStr ''scratch''),
          (''lc_launchConfig_ImageId'', JStr ''ami-1'')]"]
  have "flatten_config nested_config ''lc'' True =
     Inr [(''lc_region'', JStr ''us-west1''),
          (''lc_disks_0_initializeParams_sourceImage'', JStr ''img''),
          (''lc_disks_1'', JStr ''scratch''),
          (''lc_launchConfig_ImageId'', JStr ''ami-1'')] \<longrightarrow>
     distinct (map fst [(''lc_region'', JStr ''us-west1''),
          (''lc_disks_0_initializeParams_sourceImage'', JStr ''img''),
          (''lc_disks_1'', JStr ''scratch''),
          (''lc_launchConfig_ImageId'', JStr ''ami-1'')])
     \<and> [(''lc_region'', JStr ''us-west1''),
          (''lc_disks_0_initializeParams_sourceImage'', JStr ''img''),
          (''lc_disks_1'', JStr ''scratch''),
          (''lc_launchConfig_ImageId'', JStr ''ami-1'')] = derived nested_config ''lc'' True"
    by (rule conjunct2)
  with 1 show "distinct (map fst [(''lc_region'', JStr ''us-west1''),
          (''lc_disks_0_initializeParams_sourceImage'', JStr ''img''),
          (''lc_disks_1'', JStr ''scratch''),
          (''lc_launchConfig_ImageId'', JStr ''ami-1'')])"
    by (elim impE conjE)
  show "derived colliding_config '''' False = [(''a_b'', JInt 1), (''a_b'', JInt 2)]"
    by (rule colliding_config_derived)
  from flatten_config_unique_keys [of colliding_config "''''" False "[]"]
  have "flatten_config colliding_config '''' False =
          (if distinct (map fst (derived colliding_config '''' False))
           then Inr (derived colliding_config '''' False) else Inl AssertionError)"
    by (rule conjunct1)
  also have "\<dots> = Inl AssertionError"
    unfolding colliding_config_derived by simp
  finally show "flatten_config colliding_config '''' False = Inl AssertionError" .
qed

section \<open>Properties of the record-to-row projector\<close>

lemma gather_headers_append_new:
  "foldl (\<lambda>headers worker. append_new headers (map fst worker)) seen workers
   = append_new seen (concat (map (map fst) workers))"
  by (induction workers arbitrary: seen) (simp_all add: append_new_append)

lemma gather_headers_eq:
  "gather_headers workers = append_new [] (concat (map (map fst) workers))"
  by (simp add: gather_headers_def gather_headers_append_new)

lemma convert_row_keys: "convert_row full w = Inr row \<Longrightarrow> map fst row = map fst w"
  by (induction w arbitrary: row) (auto split: sum.splits if_splits)

lemma convert_row_map_of:
  "convert_row full w = Inr row \<Longrightarrow>
   cell full w h = (case map_of row h of None \<Rightarrow> Some (Raw (JStr [])) | Some v \<Rightarrow> Some v)"
  by (induction w arbitrary: row) (auto simp: cell_def split: sum.splits if_splits)

lemma writerow_cells:
  assumes "convert_row full w = Inr row" and "set (map fst w) \<subseteq> set headers"
  shows "writerow headers row = Inr (map (\<lambda>h. the (cell full w h)) headers)"
proof -
  from convert_row_keys [OF assms(1)] assms(2) have "\<not> (\<exists>k \<in> fst ` set row. k \<notin> set headers)"
    by (metis list.set_map subsetD)
  moreover have "(case map_of row h of None \<Rightarrow> Raw (JStr []) | Some v \<Rightarrow> v) = the (cell full w h)" for h
    using convert_row_map_of [OF assms(1), of h] by (auto split: option.splits)
  ultimately show ?thesis by (simp add: writerow_def)
qed

lemma write_rows_ok:
  assumes "write_rows full headers workers = (rows, None)"
    and "\<forall>w \<in> set workers. set (map fst w) \<subseteq> set headers"
  shows "rows = map (\<lambda>w. map (\<lambda>h. the (cell full w h)) headers) workers
       \<and> (\<forall>w \<in> set workers. \<forall>h. cell full w h \<noteq> None)"
  using assms
proof (induction workers arbitrary: rows)
  case Nil
  then show ?case by simp
next
  case (Cons w ws)
  from Cons.prems(1) obtain row where row: "convert_row full w = Inr row"
    by (auto split: sum.splits)
  from Cons.prems(2) have sub: "set (map fst w) \<subseteq> set headers" by simp
  note wr = writerow_cells [OF row sub]
  from Cons.prems(1) row wr obtain rows' where
    r: "write_rows full headers ws = (rows', None)"
       "rows = map (\<lambda>h. the (cell full w h)) headers # rows'"
    by (auto split: prod.splits)
  from Cons.prems(2) have "\<forall>w \<in> set ws. set (map fst w) \<subseteq> set headers" by simp
  from Cons.IH [OF r(1) this] have ih: "rows' = map (\<lambda>w. map (\<lambda>h. the (cell full w h)) headers) ws"
    "\<forall>w \<in> set ws. \<forall>h. cell full w h \<noteq> None" by simp_all
  have "cell full w h \<noteq> None" for h
    using convert_row_map_of [OF row, of h] by (auto split: option.splits)
  with ih r(2) show ?case by simp
qed

lemma headers_cover:
  "\<forall>w \<in> set workers. set (map fst w) \<subseteq> set (gather_headers workers)"
  by (auto simp: gather_headers_eq set_append_new)

lemma to_csv_header:
  "csv_header (fst (to_csv workers full)) = gather_headers workers"
  by (simp add: to_csv_def Let_def split: prod.splits)

text \<open>
  C7. The header of the CSV file holds every field name of the records once, in the order in
  which the names are first seen going through the records and their keys; it is a function
  of the sequence of records alone. When no date field fails to convert, there is one row
  per record, in order, aligned with the header, and a record without a value under a header
  has the empty string there. No record at all gives an empty header, no rows and no error.
\<close>

theorem to_csv_header_and_rows:
  "distinct (csv_header (fst (to_csv workers full)))
   \<and> set (csv_header (fst (to_csv workers full))) = (\<Union>w \<in> set workers. fst ` set w)
   \<and> sorted_wrt (\<lambda>a b. index_of (concat (map (map fst) workers)) a
                         < index_of (concat (map (map fst) workers)) b)
        (csv_header (fst (to_csv workers full)))
   \<and> (snd (to_csv workers full) = None \<longrightarrow>
        csv_rows (fst (to_csv workers full))
          = map (\<lambda>w. map (\<lambda>h. the (cell full w h)) (csv_header (fst (to_csv workers full))))
              workers
        \<and> (\<forall>w \<in> set workers. \<forall>h. cell full w h \<noteq> None))
   \<and> (\<forall>(w::pydict) h. map_of w h = None \<longrightarrow> cell full w h = Some (Raw (JStr [])))
   \<and> to_csv [] full = (\<lparr>csv_header = [], csv_rows = []\<rparr>, None)"
proof (intro conjI impI allI)
  let ?ks = "concat (map (map fst) workers)"
  have h: "csv_header (fst (to_csv workers full)) = append_new [] ?ks"
    by (simp add: to_csv_header gather_headers_eq)
  from append_new_first_seen [of "[]" ?ks] obtain new where
    n: "append_new [] ?ks = new" "set new = set ?ks" "distinct new"
       "sorted_wrt (\<lambda>a b. index_of ?ks a < index_of ?ks b) new" by auto
  show "distinct (csv_header (fst (to_csv workers full)))" using h n by simp
  show "set (csv_header (fst (to_csv workers full))) = (\<Union>w \<in> set workers. fst ` set w)"
    using h n by auto
  show "sorted_wrt (\<lambda>a b. index_of ?ks a < index_of ?ks b) (csv_header (fst (to_csv workers full)))"
    using h n by simp
  show "to_csv [] full = (\<lparr>csv_header = [], csv_rows = []\<rparr>, None)"
    by (simp add: to_csv_def gather_headers_def)
next
  fix w :: pydict and h
  assume "map_of w h = None"
  then show "cell full w h = Some (Raw (JStr []))" by (simp add: cell_def)
next
  assume ok: "snd (to_csv workers full) = None"
  obtain rows err where wr: "write_rows full (gather_headers workers) workers = (rows, err)"
    by (cases "write_rows full (gather_headers workers) workers") auto
  with ok have e: "err = None" by (simp add: to_csv_def Let_def)
  from wr have r: "csv_rows (fst (to_csv workers full)) = rows" by (simp add: to_csv_def Let_def)
  from write_rows_ok [OF wr [unfolded e] headers_cover]
  have w: "rows = map (\<lambda>w. map (\<lambda>h. the (cell full w h)) (gather_headers workers)) workers"
    "\<forall>w \<in> set workers. \<forall>h. cell full w h \<noteq> None" by simp_all
  show "csv_rows (fst (to_csv workers full))
          = map (\<lambda>w. map (\<lambda>h. the (cell full w h)) (csv_header (fst (to_csv workers full))))
              workers"
    using r w(1) by (simp add: to_csv_header)
  show "\<forall>w \<in> set workers. \<forall>h. cell full w h \<noteq> None" by (rule w(2))
qed

lemma example_records_csv:
  "to_csv example_records False =
     (\<lparr>csv_header = [''workerId'', ''created'', ''state''],
       csv_rows =
         [[Raw (JStr ''w1''),
           Date \<lparr>dt_year = 2021, dt_month = 3, dt_day = 5, dt_hour = 14, dt_minute = 22,
                 dt_second = 9, dt_microsecond = 0, dt_tzinfo = None\<rparr>,
           Raw (JStr [])],
          [Raw (JStr ''w2''), Raw (JStr []), Raw (JStr ''running'')]]\<rparr>,
      None)"
  by (simp add: to_csv_def example_records_def gather_headers_def date_keys_def writerow_def
      datetime_eval RE_DATETIME_match_example)

theorem to_csv_header_and_rows_witness:
  "to_csv example_records False =
     (\<lparr>csv_header = [''workerId'', ''created'', ''state''],
       csv_rows =
         [[Raw (JStr ''w1''),
           Date \<lparr>dt_year = 2021, dt_month = 3, dt_day = 5, dt_hour = 14, dt_minute = 22,
                 dt_second = 9, dt_microsecond = 0, dt_tzinfo = None\<rparr>,
           Raw (JStr [])],
          [Raw (JStr ''w2''), Raw (JStr []), Raw (JStr ''running'')]]\<rparr>,
      None)
   \<and> snd (to_csv example_records False) = None
   \<and> csv_rows (fst (to_csv example_records False))
       = map (\<lambda>w. map (\<lambda>h. the (cell False w h))
                      (csv_header (fst (to_csv example_records False))))
           example_records
   \<and> map_of [(''state'', JStr ''running''), (''workerId'', JStr ''w2'')] ''created'' = None
   \<and> cell False [(''state'', JStr ''running''), (''workerId'', JStr ''w2'')] ''created''
       = Some (Raw (JStr []))"
proof -
  note t = to_csv_header_and_rows [of example_records False]
  have ok: "snd (to_csv example_records False) = None"
    by (simp add: example_records_csv)
  from t ok have rows: "csv_rows (fst (to_csv example_records False))
       = map (\<lambda>w. map (\<lambda>h. the (cell False w h))
                      (csv_header (fst (to_csv example_records False))))
           example_records"
    by (elim conjE impE)
  have m: "map_of [(''state'', JStr ''running''), (''workerId'', JStr ''w2'')] ''created'' = None"
    by simp
  from t have "\<forall>(w::pydict) h. map_of w h = None \<longrightarrow> cell False w h = Some (Raw (JStr []))"
    by (elim conjE)
  with m have c: "cell False [(''state'', JStr ''running''), (''workerId'', JStr ''w2'')] ''created''
       = Some (Raw (JStr []))"
    by (elim allE impE)
  from example_records_csv ok rows m c show ?thesis by (intro conjI)
qed

section \<open>Properties of the column-subset aggregator\<close>

lemma count_key_keys:
  "map fst (count_key counts k) = append_new (map fst counts) [k]"
  by (simp add: count_key_def update_keys)

lemma count_key_map_of:
  "map_of (count_key counts k) g =
     (if g = k then Some ((case map_of counts k of None \<Rightarrow> 0 | Some n \<Rightarrow> n) + 1)
      else map_of counts g)"
  by (simp add: count_key_def update_conv')

lemma foldl_count_key:
  "map fst (foldl count_key counts ks) = append_new (map fst counts) ks
   \<and> (\<forall>g. (case map_of (foldl count_key counts ks) g of None \<Rightarrow> 0 | Some n \<Rightarrow> n)
           = (case map_of counts g of None \<Rightarrow> 0 | Some n \<Rightarrow> n) + int (count_list ks g))"
proof (induction ks arbitrary: counts)
  case Nil
  then show ?case by simp
next
  case (Cons k ks)
  have "foldl count_key counts (k # ks) = foldl count_key (count_key counts k) ks" by simp
  moreover have "map fst (count_key counts k) = append_new (map fst counts) [k]"
    by (rule count_key_keys)
  moreover have "(case map_of (count_key counts k) g of None \<Rightarrow> 0 | Some n \<Rightarrow> n)
        = (case map_of counts g of None \<Rightarrow> 0 | Some n \<Rightarrow> n) + (if g = k then 1 else 0)" for g
    by (simp add: count_key_map_of)
  ultimately show ?case using Cons.IH [of "count_key counts k"]
    by (auto simp del: foldl_Cons)
qed

lemma count_keys_eq:
  "count_keys columns flat_configs = foldl count_key [] (map (out_key_of columns) flat_configs)"
  by (simp add: count_keys_def foldl_map)

lemma update_new: "k \<notin> fst ` set al \<Longrightarrow> AList.update k v al = al @ [(k, v)]"
  by (induction al) auto

lemma foldl_update_distinct:
  "distinct (map fst pairs) \<Longrightarrow> fst ` set pairs \<inter> fst ` set d = {} \<Longrightarrow>
   foldl (\<lambda>d (k, v). AList.update k v d) d pairs = d @ pairs"
proof (induction pairs arbitrary: d)
  case Nil
  then show ?case by simp
next
  case (Cons p pairs)
  obtain k v where p: "p = (k, v)" by (cases p) auto
  from Cons.prems p have k: "k \<notin> fst ` set d" by auto
  from Cons.prems p have "distinct (map fst pairs)" "fst ` set pairs \<inter> fst ` set (d @ [(k, v)]) = {}"
    by auto
  from Cons.IH [OF this] k p show ?case by (simp add: update_new)
qed

lemma py_dict_zip:
  "distinct columns \<Longrightarrow> py_dict (zip columns vals) = zip columns vals"
proof -
  assume "distinct columns"
  then have "distinct (map fst (zip columns vals))"
    by (metis distinct_take map_fst_zip_take)
  from foldl_update_distinct [OF this, of "[]"] show ?thesis by (simp add: py_dict_def)
qed

lemma sort_keys_of_counts:
  "sort (append_new [] ks) = sorted_list_of_set (set ks)"
proof -
  have "distinct (append_new [] ks)" by (simp add: distinct_append_new)
  then have "sort (append_new [] ks) = sort (remdups (append_new [] ks))"
    by (simp add: distinct_remdups_id)
  also have "\<dots> = sorted_list_of_set (set (append_new [] ks))"
    by (simp only: sorted_list_of_set_sort_remdups)
  finally show ?thesis by (simp add: set_append_new)
qed

lemma out_row_eq:
  assumes "distinct columns" and "''launch_config_count'' \<notin> set columns"
  shows "AList.update ''launch_config_count'' v (py_dict (zip columns vals))
         = zip columns vals @ [(''launch_config_count'', v)]"
proof -
  from assms(2) have "''launch_config_count'' \<notin> fst ` set (zip columns vals)"
    by (auto dest: set_zip_leftD)
  then show ?thesis by (simp add: py_dict_zip [OF assms(1)] update_new)
qed

lemma csv_set_rows_eq:
  assumes "distinct columns" and "''launch_config_count'' \<notin> set columns"
  shows "csv_set_rows columns flat_configs =
           map (\<lambda>g. spec_row columns g (count_list (map (out_key_of columns) flat_configs) g))
             (sorted_list_of_set (set (map (out_key_of columns) flat_configs)))"
proof -
  let ?ks = "map (out_key_of columns) flat_configs"
  let ?counts = "count_keys columns flat_configs"
  from foldl_count_key [of "[]" ?ks]
  have k: "map fst ?counts = append_new [] ?ks"
    and c: "\<And>g. (case map_of ?counts g of None \<Rightarrow> 0 | Some n \<Rightarrow> n) = int (count_list ?ks g)"
    by (simp_all add: count_keys_eq)
  have "csv_set_rows columns flat_configs =
          map (\<lambda>row. AList.update ''launch_config_count''
                       (JInt (case map_of ?counts row of None \<Rightarrow> 0 | Some n \<Rightarrow> n))
                       (py_dict (zip columns (map JStr row))))
            (sort (map fst ?counts))"
    by (simp add: csv_set_rows_def Let_def)
  also have "\<dots> = map (\<lambda>g. spec_row columns g (count_list ?ks g)) (sort (map fst ?counts))"
    by (simp add: out_row_eq [OF assms] c spec_row_def)
  also have "sort (map fst ?counts) = sorted_list_of_set (set ?ks)"
    by (simp only: k sort_keys_of_counts)
  finally show ?thesis .
qed

lemma length_csv_set_rows:
  "length (csv_set_rows columns flat_configs) = card (set (map (out_key_of columns) flat_configs))"
proof -
  let ?ks = "map (out_key_of columns) flat_configs"
  from foldl_count_key [of "[]" ?ks]
  have k: "map fst (count_keys columns flat_configs) = append_new [] ?ks"
    by (simp add: count_keys_eq)
  have "length (csv_set_rows columns flat_configs) = length (append_new [] ?ks)"
    by (simp add: csv_set_rows_def Let_def k)
  also have "\<dots> = card (set (append_new [] ?ks))"
    by (simp add: distinct_card distinct_append_new)
  finally show ?thesis by (simp add: set_append_new)
qed

text \<open>
  C5. The aggregator groups the rows by the tuple of their values in the projection columns,
  a missing value counting as the empty string. For a list of columns without repetition
  that does not hold the name \<^verbatim>\<open>launch_config_count\<close> (as the view \<^verbatim>\<open>amis\<close> is), its
  output is: for each distinct group, in ascending lexicographic order of the groups, one
  row with the values of the projection columns followed by \<^verbatim>\<open>launch_config_count\<close>,
  the number of rows of the group. There are as many output rows as distinct groups. Two
  rows that agree in all projection columns give one output row with count 2, whatever else
  they hold.
\<close>

theorem csv_set_rows_groups:
  "(distinct columns \<and> ''launch_config_count'' \<notin> set columns \<longrightarrow>
      csv_set_rows columns flat_configs =
        map (\<lambda>g. spec_row columns g (count_list (map (out_key_of columns) flat_configs) g))
          (sorted_list_of_set (set (map (out_key_of columns) flat_configs))))
   \<and> length (csv_set_rows columns flat_configs)
       = card (set (map (out_key_of columns) flat_configs))
   \<and> (distinct columns \<and> ''launch_config_count'' \<notin> set columns
        \<and> out_key_of columns r1 = out_key_of columns r2 \<longrightarrow>
      csv_set_rows columns [r1, r2] = [spec_row columns (out_key_of columns r1) 2])"
proof (intro conjI impI)
  assume a: "distinct columns \<and> ''launch_config_count'' \<notin> set columns"
  then show "csv_set_rows columns flat_configs =
        map (\<lambda>g. spec_row columns g (count_list (map (out_key_of columns) flat_configs) g))
          (sorted_list_of_set (set (map (out_key_of columns) flat_configs)))"
    by (simp add: csv_set_rows_eq)
next
  show "length (csv_set_rows columns flat_configs)
       = card (set (map (out_key_of columns) flat_configs))"
    by (rule length_csv_set_rows)
next
  assume a: "distinct columns \<and> ''launch_config_count'' \<notin> set columns
        \<and> out_key_of columns r1 = out_key_of columns r2"
  then have d: "distinct columns" "''launch_config_count'' \<notin> set columns" by simp_all
  have "csv_set_rows columns [r1, r2] =
        map (\<lambda>g. spec_row columns g (count_list (map (out_key_of columns) [r1, r2]) g))
          (sorted_list_of_set (set (map (out_key_of columns) [r1, r2])))"
    by (rule csv_set_rows_eq [OF d])
  with a show "csv_set_rows columns [r1, r2] = [spec_row columns (out_key_of columns r1) 2]"
    by (simp add: numeral_2_eq_2)
qed

lemma example_out_keys:
  "out_key_of CSV_SET_amis_columns (example_flat_configs ! 0)
     = [''proj/a'', ''aws'', [], [], [], ''ami-1'', ''us-west-2'', []]"
  "out_key_of CSV_SET_amis_columns (example_flat_configs ! 1)
     = [''proj/a'', ''aws'', [], [], [], ''ami-1'', ''us-west-2'', []]"
  by (simp_all add: out_key_of_def CSV_SET_amis_columns_def example_flat_configs_def)

lemma amis_columns_ok:
  "distinct CSV_SET_amis_columns" "''launch_config_count'' \<notin> set CSV_SET_amis_columns"
  by (simp_all add: CSV_SET_amis_columns_def)

theorem csv_set_rows_groups_witness:
  "distinct CSV_SET_amis_columns \<and> ''launch_config_count'' \<notin> set CSV_SET_amis_columns
   \<and> out_key_of CSV_SET_amis_columns (example_flat_configs ! 0)
       = out_key_of CSV_SET_amis_columns (example_flat_configs ! 1)
   \<and> example_flat_configs ! 0 \<noteq> example_flat_configs ! 1
   \<and> csv_set_rows CSV_SET_amis_columns [example_flat_configs ! 0, example_flat_configs ! 1]
       = [[(''workerPoolId'', JStr ''proj/a''), (''providerId'', JStr ''aws''),
           (''created'', JStr []), (''lastModified'', JStr []), (''owner'', JStr []),
           (''lc_launchConfig_ImageId'', JStr ''ami-1''), (''lc_region'', JStr ''us-west-2''),
           (''lc_disks_0_initializeParams_sourceImage'', JStr []),
           (''launch_config_count'', JInt 2)]]"
proof -
  note t = csv_set_rows_groups [of CSV_SET_amis_columns "[]"
      "example_flat_configs ! 0" "example_flat_configs ! 1"]
  have e: "out_key_of CSV_SET_amis_columns (example_flat_configs ! 0)
       = out_key_of CSV_SET_amis_columns (example_flat_configs ! 1)"
    by (simp only: example_out_keys)
  have "csv_set_rows CSV_SET_amis_columns [example_flat_configs ! 0, example_flat_configs ! 1]
        = [spec_row CSV_SET_amis_columns
             (out_key_of CSV_SET_amis_columns (example_flat_configs ! 0)) 2]"
    by (rule t [THEN conjunct2, THEN conjunct2, THEN mp])
       (intro conjI amis_columns_ok e)
  also have "\<dots> = [[(''workerPoolId'', JStr ''proj/a''), (''providerId'', JStr ''aws''),
           (''created'', JStr []), (''lastModified'', JStr []), (''owner'', JStr []),
           (''lc_launchConfig_ImageId'', JStr ''ami-1''), (''lc_region'', JStr ''us-west-2''),
           (''lc_disks_0_initializeParams_sourceImage'', JStr []),
           (''launch_config_count'', JInt 2)]]"
    by (simp only: example_out_keys) (simp add: spec_row_def CSV_SET_amis_columns_def)
  finally have r: "csv_set_rows CSV_SET_amis_columns
        [example_flat_configs ! 0, example_flat_configs ! 1] = [[(''workerPoolId'', JStr ''proj/a''), (''providerId'', JStr ''aws''),
           (''created'', JStr []), (''lastModified'', JStr []), (''owner'', JStr []),
           (''lc_launchConfig_ImageId'', JStr ''ami-1''), (''lc_region'', JStr ''us-west-2''),
           (''lc_disks_0_initializeParams_sourceImage'', JStr []),
           (''launch_config_count'', JInt 2)]]" .
  have n: "example_flat_configs ! 0 \<noteq> example_flat_configs ! 1"
    by (simp add: example_flat_configs_def)
  from amis_columns_ok e n r show ?thesis by (intro conjI)
qed

end
